theory Spec2Isabelle
  imports Main
begin

section \<open>Python values\<close>

text \<open>
  The script \<^verbatim>\<open>.github/scripts/mobsf_ci.py\<close> handles JSON documents decoded by
  \<^verbatim>\<open>response.json()\<close>. A decoded document is a Python value: \<^verbatim>\<open>None\<close>, a bool,
  an int, a str, a list or a dict with str keys. A dict keeps its keys in insertion order,
  so it is an association list here; the keys of a decoded dict are distinct. JSON numbers
  with a fraction or an exponent (Python floats) are not part of the model.

  A Python str is a sequence of code points. A \<^typ>\<open>char\<close> stands for the code point of
  the same number, so the model covers the strings over the first 256 code points.
\<close>

datatype json =
    JNull
  | JBool bool
  | JInt int
  | JStr string
  | JList "json list"
  | JDict "(string \<times> json) list"

text \<open>Exceptions. \<^verbatim>\<open>MobSFError\<close> is the script's own class; its message is kept as the
  data the f-string of the raise statement interpolates.\<close>

datatype mobsf_reason =
    ServerNotReady string int
  | StatusFailed string nat string
  | UploadMissingKeys "string list"
  | AppNotFound "string list"
  | PollTimedOut
  | PolicyViolation

datatype exn =
    MobSFError mobsf_reason
  | RequestException
  | OSError
  | TypeError
  | AttributeError
  | KeyError string

text \<open>Truthiness, as \<^verbatim>\<open>bool(v)\<close>, \<^verbatim>\<open>not v\<close> and the operands of \<^verbatim>\<open>or\<close> see it.\<close>

fun py_truthy :: "json \<Rightarrow> bool" where
  "py_truthy JNull = False"
| "py_truthy (JBool b) = b"
| "py_truthy (JInt i) = (i \<noteq> 0)"
| "py_truthy (JStr s) = (s \<noteq> [])"
| "py_truthy (JList xs) = (xs \<noteq> [])"
| "py_truthy (JDict kvs) = (kvs \<noteq> [])"

text \<open>\<^verbatim>\<open>a or b\<close>: the first operand when it is truthy, the second otherwise.\<close>

definition py_or :: "json \<Rightarrow> json \<Rightarrow> json" where
  "py_or a b = (if py_truthy a then a else b)"

text \<open>\<^verbatim>\<open>d.get(k)\<close> and \<^verbatim>\<open>d.get(k, default)\<close> on a dict.\<close>

definition dict_get_default :: "(string \<times> json) list \<Rightarrow> string \<Rightarrow> json \<Rightarrow> json" where
  "dict_get_default d k dflt = (case map_of d k of None \<Rightarrow> dflt | Some v \<Rightarrow> v)"

definition dict_get :: "(string \<times> json) list \<Rightarrow> string \<Rightarrow> json" where
  "dict_get d k = dict_get_default d k JNull"

subsection \<open>Strings: \<^verbatim>\<open>strip\<close>, \<^verbatim>\<open>lower\<close>, \<^verbatim>\<open>str\<close> and \<^verbatim>\<open>repr\<close>\<close>

text \<open>\<^verbatim>\<open>str.isspace\<close> on one code point below 256: the ASCII white space, the
  separators FS, GS, RS and US, NEL and the no-break space.\<close>

definition py_isspace :: "char \<Rightarrow> bool" where
  "py_isspace c = ((of_char c :: nat) \<in> {9, 10, 11, 12, 13, 28, 29, 30, 31, 32, 133, 160})"

definition py_strip :: "string \<Rightarrow> string" where
  "py_strip s = rev (dropWhile py_isspace (rev (dropWhile py_isspace s)))"

text \<open>\<^verbatim>\<open>str.lower\<close> on one code point below 256: A to Z, and the upper-case letters of
  the Latin-1 supplement (0xC0 to 0xDE without the multiplication sign 0xD7), move up
  by 32.\<close>

definition py_lower_char :: "char \<Rightarrow> char" where
  "py_lower_char c =
     (let n = (of_char c :: nat)
      in if (65 \<le> n \<and> n \<le> 90) \<or> (192 \<le> n \<and> n \<le> 222 \<and> n \<noteq> 215)
         then char_of (n + 32) else c)"

definition py_lower :: "string \<Rightarrow> string" where
  "py_lower s = map py_lower_char s"

text \<open>Decimal digits of an int, as \<^verbatim>\<open>str(i)\<close> prints them. (An int of a decoded
  document has no more digits than the interpreter lets \<^verbatim>\<open>int\<close> read, so \<^verbatim>\<open>str\<close>
  does not refuse it.)\<close>

fun nat_dec :: "nat \<Rightarrow> string" where
  "nat_dec n = (if n < 10 then [''0123456789'' ! n]
                else nat_dec (n div 10) @ [''0123456789'' ! (n mod 10)])"

declare nat_dec.simps [simp del]

definition int_dec :: "int \<Rightarrow> string" where
  "int_dec i = (if i < 0 then CHR ''-'' # nat_dec (nat (- i)) else nat_dec (nat i))"

text \<open>\<^verbatim>\<open>repr\<close> of a str: single quotes, unless the string holds a single quote and no
  double quote; the quote and the backslash are escaped, tab, newline and carriage return
  get their letters, and every other code point that is not printable is written
  \<^verbatim>\<open>\xhh\<close>.\<close>

definition hex2 :: "nat \<Rightarrow> string" where
  "hex2 n = [''0123456789abcdef'' ! (n div 16), ''0123456789abcdef'' ! (n mod 16)]"

definition py_printable :: "char \<Rightarrow> bool" where
  "py_printable c =
     (let n = (of_char c :: nat) in (32 \<le> n \<and> n < 127) \<or> (161 \<le> n \<and> n \<noteq> 173))"

definition repr_char :: "char \<Rightarrow> char \<Rightarrow> string" where
  "repr_char q c =
     (if c = q \<or> c = CHR 0x5C then [CHR 0x5C, c]
      else if c = CHR 0x09 then [CHR 0x5C, CHR ''t'']
      else if c = CHR 0x0A then [CHR 0x5C, CHR ''n'']
      else if c = CHR 0x0D then [CHR 0x5C, CHR ''r'']
      else if py_printable c then [c]
      else [CHR 0x5C, CHR ''x''] @ hex2 (of_char c))"

definition repr_str :: "string \<Rightarrow> string" where
  "repr_str s =
     (let q = (if CHR 0x27 \<in> set s \<and> CHR 0x22 \<notin> set s then CHR 0x22 else CHR 0x27)
      in [q] @ concat (map (repr_char q) s) @ [q])"

text \<open>\<^verbatim>\<open>sep.join(parts)\<close>.\<close>

fun py_join :: "string \<Rightarrow> string list \<Rightarrow> string" where
  "py_join sep [] = []"
| "py_join sep [x] = x"
| "py_join sep (x # y # ys) = x @ sep @ py_join sep (y # ys)"

fun py_repr :: "json \<Rightarrow> string" where
  "py_repr JNull = ''None''"
| "py_repr (JBool b) = (if b then ''True'' else ''False'')"
| "py_repr (JInt i) = int_dec i"
| "py_repr (JStr s) = repr_str s"
| "py_repr (JList xs) = ''['' @ py_join '', '' (map py_repr xs) @ '']''"
| "py_repr (JDict kvs) =
     ''{'' @ py_join '', '' (map (\<lambda>(k, v). repr_str k @ '': '' @ py_repr v) kvs) @ ''}''"

text \<open>\<^verbatim>\<open>str(v)\<close>, which is also what an f-string field \<^verbatim>\<open>{v}\<close> prints: a str is
  itself, every other value is its \<^verbatim>\<open>repr\<close>.\<close>

fun py_str :: "json \<Rightarrow> string" where
  "py_str (JStr s) = s"
| "py_str v = py_repr v"

section \<open>Classification: \<^verbatim>\<open>parse_masvs\<close>\<close>

text \<open>\<^verbatim>\<open>MASVSResult\<close> is a dataclass. Its field \<^verbatim>\<open>passed\<close> is annotated \<^verbatim>\<open>int\<close>, but
  the aggregate branch of \<^verbatim>\<open>parse_masvs\<close> stores whatever value the payload holds, so
  the field is a \<^typ>\<open>json\<close> value here.\<close>

record MASVSResult =
  level :: string
  passed :: json
  failed :: "json list"

text \<open>The property \<^verbatim>\<open>is_compliant\<close>: \<^verbatim>\<open>return not self.failed\<close>.\<close>

definition is_compliant :: "MASVSResult \<Rightarrow> bool" where
  "is_compliant r = (\<not> py_truthy (JList (failed r)))"

definition PASS_TOKENS :: "string set" where
  "PASS_TOKENS = {''pass'', ''passed'', ''compliant''}"

text \<open>\<^verbatim>\<open>for entry in v\<close>: a list yields its elements, a str its characters, a dict its
  keys; the other values are not iterable.\<close>

definition py_iter :: "json \<Rightarrow> exn + json list" where
  "py_iter v =
     (case v of
        JList xs \<Rightarrow> Inr xs
      | JStr s \<Rightarrow> Inr (map (\<lambda>c. JStr [c]) s)
      | JDict kvs \<Rightarrow> Inr (map (\<lambda>(k, _). JStr k) kvs)
      | _ \<Rightarrow> Inl TypeError)"

text \<open>The first two statements of the loop body:
  \<^verbatim>\<open>status_raw = entry.get("status") or entry.get("value") or ""\<close> and
  \<^verbatim>\<open>status = str(status_raw).strip().lower()\<close>.\<close>

definition entry_status :: "(string \<times> json) list \<Rightarrow> string" where
  "entry_status e =
     (let status_raw = py_or (py_or (dict_get e ''status'') (dict_get e ''value'')) (JStr [])
      in py_lower (py_strip (py_str status_raw)))"

text \<open>The loop over the per-control entries, with the counter \<^verbatim>\<open>passed\<close> and the list
  \<^verbatim>\<open>failed\<close> as accumulators. \<^verbatim>\<open>entry.get\<close> exists on a dict only: any other entry
  raises \<^verbatim>\<open>AttributeError\<close>. Both non-pass branches append the entry.\<close>

fun classify :: "json list \<Rightarrow> nat \<Rightarrow> json list \<Rightarrow> exn + (nat \<times> json list)" where
  "classify [] n acc = Inr (n, acc)"
| "classify (entry # rest) n acc =
     (case entry of
        JDict e \<Rightarrow>
          (let status = entry_status e
           in if status \<in> PASS_TOKENS then classify rest (n + 1) acc
              else if status \<noteq> [] then classify rest n (acc @ [entry])
              else classify rest n (acc @ [entry]))
      | _ \<Rightarrow> Inl AttributeError)"

text \<open>\<^verbatim>\<open>controls = data.get("controls") or data.get("masvs_controls") or []\<close> and
  \<^verbatim>\<open>aggregate = data.get("summary") or data.get("masvs_summary") or {}\<close>.\<close>

definition controls_of :: "(string \<times> json) list \<Rightarrow> json" where
  "controls_of d = py_or (py_or (dict_get d ''controls'') (dict_get d ''masvs_controls'')) (JList [])"

definition aggregate_of :: "(string \<times> json) list \<Rightarrow> json" where
  "aggregate_of d = py_or (py_or (dict_get d ''summary'') (dict_get d ''masvs_summary'')) (JDict [])"

text \<open>The body of the aggregate branch: the three assignments from \<^verbatim>\<open>aggregate\<close>.\<close>

definition aggregate_passed :: "(string \<times> json) list \<Rightarrow> json" where
  "aggregate_passed a =
     py_or (dict_get_default a ''pass'' (JInt 0)) (dict_get_default a ''passed'' (JInt 0))"

definition aggregate_failed :: "(string \<times> json) list \<Rightarrow> json list" where
  "aggregate_failed a =
     (let failed_controls =
            py_or (py_or (dict_get a ''failed'') (dict_get a ''non_compliant'')) (JList [])
      in case failed_controls of JList xs \<Rightarrow> xs | _ \<Rightarrow> [])"

text \<open>\<^verbatim>\<open>parse_masvs(data, level)\<close>. The annotation of \<^verbatim>\<open>data\<close> is \<^verbatim>\<open>dict\<close>; a decoded
  document that is no dict has no \<^verbatim>\<open>get\<close>. The loop runs before the aggregate is looked
  at, so its exceptions come first.\<close>

definition parse_masvs :: "json \<Rightarrow> string \<Rightarrow> exn + MASVSResult" where
  "parse_masvs data lvl =
     (case data of
        JDict d \<Rightarrow>
          (let controls = controls_of d
           in case py_iter controls of
                Inl x \<Rightarrow> Inl x
              | Inr entries \<Rightarrow>
                  (case classify entries 0 [] of
                     Inl x \<Rightarrow> Inl x
                   | Inr (n, acc) \<Rightarrow>
                       (let aggregate = aggregate_of d
                        in if \<not> py_truthy controls \<and> py_truthy aggregate
                           then (case aggregate of
                                   JDict a \<Rightarrow>
                                     Inr \<lparr>level = lvl, passed = aggregate_passed a,
                                          failed = aggregate_failed a\<rparr>
                                 | _ \<Rightarrow> Inl AttributeError)
                           else Inr \<lparr>level = lvl, passed = JInt (int n), failed = acc\<rparr>)))
      | _ \<Rightarrow> Inl AttributeError)"

text \<open>An entry passes when it is a dict whose normalised status is one of the pass
  tokens. This predicate is used to state the properties of the loop.\<close>

definition entry_passes :: "json \<Rightarrow> bool" where
  "entry_passes entry = (case entry of JDict e \<Rightarrow> entry_status e \<in> PASS_TOKENS | _ \<Rightarrow> False)"

definition is_dict :: "json \<Rightarrow> bool" where
  "is_dict v = (case v of JDict _ \<Rightarrow> True | _ \<Rightarrow> False)"

section \<open>Configuration from the environment\<close>

text \<open>The process the script runs in: \<^verbatim>\<open>os.environ\<close>, and the interpreter's cap on
  the number of digits \<^verbatim>\<open>int(str)\<close> accepts (\<^verbatim>\<open>sys.get_int_max_str_digits()\<close>: 4300
  by default since Python 3.11, 0 for no cap).\<close>

record process =
  environ :: "string \<rightharpoonup> string"
  int_max_str_digits :: nat

text \<open>\<^verbatim>\<open>int(s)\<close> on a str, base 10: white space around the literal is dropped, one sign
  may come first, then digits, where a single underscore may stand between two digits.
  The white space \<^verbatim>\<open>int\<close> drops is that of C (tab, line feed, vertical tab, form feed,
  carriage return, space) and, below 256, NEL and the no-break space; unlike
  \<^verbatim>\<open>str.strip\<close> it keeps the separators FS, GS, RS and US. More digits than the cap
  of the interpreter are refused, underscores not counted.
  \<^const>\<open>None\<close> stands for \<^verbatim>\<open>ValueError\<close>, the only exception \<^verbatim>\<open>int\<close> raises on a str.\<close>

definition int_isspace :: "char \<Rightarrow> bool" where
  "int_isspace c = ((of_char c :: nat) \<in> {9, 10, 11, 12, 13, 32, 133, 160})"

definition is_digit :: "char \<Rightarrow> bool" where
  "is_digit c = (48 \<le> (of_char c :: nat) \<and> (of_char c :: nat) \<le> 57)"

definition digit_val :: "char \<Rightarrow> nat" where
  "digit_val c = of_char c - 48"

fun parse_digits :: "nat \<Rightarrow> string \<Rightarrow> nat option" where
  "parse_digits acc [] = Some acc"
| "parse_digits acc (c # cs) =
     (if is_digit c then parse_digits (10 * acc + digit_val c) cs
      else if c = CHR ''_''
      then (case cs of
              [] \<Rightarrow> None
            | d # ds \<Rightarrow> if is_digit d then parse_digits (10 * acc + digit_val d) ds else None)
      else None)"

definition parse_unsigned :: "string \<Rightarrow> nat option" where
  "parse_unsigned s =
     (case s of
        [] \<Rightarrow> None
      | c # cs \<Rightarrow> if is_digit c then parse_digits (digit_val c) cs else None)"

definition py_int :: "nat \<Rightarrow> string \<Rightarrow> int option" where
  "py_int lim raw =
     (let s = rev (dropWhile int_isspace (rev (dropWhile int_isspace raw)));
          neg = (case s of [] \<Rightarrow> False | c # _ \<Rightarrow> c = CHR ''-'');
          digits = (case s of [] \<Rightarrow> [] | c # cs \<Rightarrow> if c = CHR ''-'' \<or> c = CHR ''+'' then cs else s)
      in if 0 < lim \<and> lim < length (filter is_digit digits) then None
         else (case parse_unsigned digits of
                 None \<Rightarrow> None
               | Some n \<Rightarrow> Some (if neg then - int n else int n)))"

text \<open>What the script prints to \<^verbatim>\<open>sys.stderr\<close>. Each constructor is one message, with
  the values its f-string interpolates.\<close>

datatype err_line =
    WarnNotInteger string string int
  | WarnNotPositive string int int
  | ErrorMobSF mobsf_reason
  | ErrorNetworking

definition DEFAULT_POLL_DELAY_SECONDS :: int where
  "DEFAULT_POLL_DELAY_SECONDS = 5"

definition DEFAULT_POLL_TIMEOUT_SECONDS :: int where
  "DEFAULT_POLL_TIMEOUT_SECONDS = 600"

text \<open>\<^verbatim>\<open>_get_positive_int_env(env_name, default)\<close>: the value returned, and the lines
  printed to the error stream.\<close>

definition get_positive_int_env :: "process \<Rightarrow> string \<Rightarrow> int \<Rightarrow> int \<times> err_line list" where
  "get_positive_int_env ps env_name dflt =
     (case environ ps env_name of
        None \<Rightarrow> (dflt, [])
      | Some raw_value \<Rightarrow>
          (case py_int (int_max_str_digits ps) raw_value of
             None \<Rightarrow> (dflt, [WarnNotInteger env_name raw_value dflt])
           | Some parsed \<Rightarrow>
               if parsed \<le> 0 then (dflt, [WarnNotPositive env_name parsed dflt])
               else (parsed, [])))"

text \<open>The two module constants, computed when the module is loaded.\<close>

definition POLL_DELAY_SECONDS :: "process \<Rightarrow> int" where
  "POLL_DELAY_SECONDS ps =
     fst (get_positive_int_env ps ''MOBSF_POLL_DELAY_SECONDS'' DEFAULT_POLL_DELAY_SECONDS)"

definition POLL_TIMEOUT_SECONDS :: "process \<Rightarrow> int" where
  "POLL_TIMEOUT_SECONDS ps =
     fst (get_positive_int_env ps ''MOBSF_POLL_TIMEOUT_SECONDS'' DEFAULT_POLL_TIMEOUT_SECONDS)"

definition import_warnings :: "process \<Rightarrow> err_line list" where
  "import_warnings ps =
     snd (get_positive_int_env ps ''MOBSF_POLL_DELAY_SECONDS'' DEFAULT_POLL_DELAY_SECONDS) @
     snd (get_positive_int_env ps ''MOBSF_POLL_TIMEOUT_SECONDS'' DEFAULT_POLL_TIMEOUT_SECONDS)"

section \<open>The world the script acts on\<close>

text \<open>A request as the script sends it through its \<^verbatim>\<open>requests.Session\<close>: the method, the
  URL, the \<^verbatim>\<open>Authorization\<close> header of the session, the body with its encoding
  (\<^verbatim>\<open>json=\<close>, \<^verbatim>\<open>data=\<close> or \<^verbatim>\<open>files=\<close>) and the \<^verbatim>\<open>timeout\<close> argument.\<close>

datatype http_method = GET | POST

datatype body =
    NoBody
  | JsonBody "(string \<times> json) list"
  | FormBody "(string \<times> json) list"
  | FilesBody string string

record request =
  meth :: http_method
  url :: string
  authorization :: string
  req_body :: body
  timeout_s :: nat

text \<open>A response: the status code, the body as text, and what \<^verbatim>\<open>response.json()\<close> makes
  of the body (\<^const>\<open>None\<close> when the body is no JSON document, where \<^verbatim>\<open>json()\<close> raises
  the \<^verbatim>\<open>JSONDecodeError\<close> of \<^verbatim>\<open>requests\<close>, a \<^verbatim>\<open>RequestException\<close> since
  \<^verbatim>\<open>requests\<close> 2.27).\<close>

record response =
  status_code :: nat
  body_text :: string
  json_body :: "json option"

text \<open>One call of the session either raises a \<^verbatim>\<open>RequestException\<close> (no connection,
  a timeout) or returns a response; it takes \<^term>\<open>lat\<close> milliseconds.\<close>

datatype outcome = Raised | Resp response

record reply =
  lat :: nat
  out :: outcome

type_synonym path = "string list"

datatype node = File string | Dir

text \<open>What the script prints to \<^verbatim>\<open>sys.stdout\<close>, one constructor for each \<^verbatim>\<open>print\<close>
  statement, and the blocks it appends to the CI summary.\<close>

datatype out_line =
    ServerReachable string
  | Uploaded string string
  | AnalysisStarted
  | RawSaved path
  | LevelSummary string string nat
  | NonCompliantHeader
  | Failures string
  | AllPassed

datatype summary =
    SummaryFailed mobsf_reason
  | SummaryNetworkFailure
  | SummaryDone bool string string nat "path option"

text \<open>The state of the world: the monotonic clock in milliseconds, the replies the
  service will give (the k-th call of the session gets \<^term>\<open>replies w k\<close>), the requests
  sent so far, the file system (a path is the list of its components, the root is
  \<^term>\<open>[]\<close>), the two output streams, and the file named by \<^verbatim>\<open>GITHUB_STEP_SUMMARY\<close>:
  the blocks appended to it, and whether opening or writing it raises \<^verbatim>\<open>OSError\<close>.\<close>

record world =
  clock :: int
  replies :: "nat \<Rightarrow> reply"
  sent :: "request list"
  fs :: "path \<rightharpoonup> node"
  stdout :: "out_line list"
  stderr :: "err_line list"
  summary_log :: "(string \<times> summary) list"
  summary_broken :: bool

record session =
  headers_authorization :: string

text \<open>Sequencing of two steps, the second of which runs only when the first did not
  raise.\<close>

definition bind :: "(world \<Rightarrow> (exn + 'a) \<times> world) \<Rightarrow> ('a \<Rightarrow> world \<Rightarrow> (exn + 'b) \<times> world)
    \<Rightarrow> world \<Rightarrow> (exn + 'b) \<times> world" where
  "bind m f w = (case m w of (Inl x, w') \<Rightarrow> (Inl x, w') | (Inr a, w') \<Rightarrow> f a w')"

definition print :: "out_line \<Rightarrow> world \<Rightarrow> world" where
  "print l w = w\<lparr>stdout := stdout w @ [l]\<rparr>"

definition print_err :: "err_line \<Rightarrow> world \<Rightarrow> world" where
  "print_err l w = w\<lparr>stderr := stderr w @ [l]\<rparr>"

text \<open>\<^verbatim>\<open>time.sleep(secs)\<close> moves the clock.\<close>

definition sleep :: "int \<Rightarrow> world \<Rightarrow> world" where
  "sleep secs w = w\<lparr>clock := clock w + 1000 * secs\<rparr>"

text \<open>One call of the session: the request is recorded, the next reply is consumed and
  the clock moves by its latency.\<close>

definition http_call :: "request \<Rightarrow> world \<Rightarrow> outcome \<times> world" where
  "http_call rq w =
     (let rp = replies w (length (sent w))
      in (out rp, w\<lparr>clock := clock w + int (lat rp), sent := sent w @ [rq]\<rparr>))"

text \<open>\<^verbatim>\<open>session.get(url, timeout=t)\<close> and \<^verbatim>\<open>session.post(url, ..., timeout=t)\<close>: the
  request each of them sends, and the call.\<close>

definition get_request :: "session \<Rightarrow> string \<Rightarrow> nat \<Rightarrow> request" where
  "get_request s u t =
     \<lparr>meth = GET, url = u, authorization = headers_authorization s,
      req_body = NoBody, timeout_s = t\<rparr>"

definition post_request :: "session \<Rightarrow> string \<Rightarrow> body \<Rightarrow> nat \<Rightarrow> request" where
  "post_request s u b t =
     \<lparr>meth = POST, url = u, authorization = headers_authorization s,
      req_body = b, timeout_s = t\<rparr>"

definition session_get :: "session \<Rightarrow> string \<Rightarrow> nat \<Rightarrow> world \<Rightarrow> outcome \<times> world" where
  "session_get s u t w = http_call (get_request s u t) w"

definition session_post :: "session \<Rightarrow> string \<Rightarrow> body \<Rightarrow> nat \<Rightarrow> world \<Rightarrow> outcome \<times> world" where
  "session_post s u b t w = http_call (post_request s u b t) w"

text \<open>\<^verbatim>\<open>response.json()\<close>.\<close>

definition response_json :: "response \<Rightarrow> exn + json" where
  "response_json r = (case json_body r of None \<Rightarrow> Inl RequestException | Some j \<Rightarrow> Inr j)"

text \<open>\<^verbatim>\<open>_raise_for_status(response, context)\<close>: \<^verbatim>\<open>response.raise_for_status()\<close> raises
  \<^verbatim>\<open>HTTPError\<close> for the statuses 400 to 599, which becomes a \<^verbatim>\<open>MobSFError\<close>.\<close>

definition http_error_status :: "nat \<Rightarrow> bool" where
  "http_error_status n = (400 \<le> n \<and> n < 600)"

definition raise_for_status :: "response \<Rightarrow> string \<Rightarrow> exn + unit" where
  "raise_for_status r context =
     (if http_error_status (status_code r)
      then Inl (MobSFError (StatusFailed context (status_code r) (body_text r)))
      else Inr ())"

text \<open>\<^verbatim>\<open>v[k]\<close> with a str key: a dict without the key raises \<^verbatim>\<open>KeyError\<close>, any other
  value \<^verbatim>\<open>TypeError\<close>.\<close>

definition py_subscript :: "json \<Rightarrow> string \<Rightarrow> exn + json" where
  "py_subscript v k =
     (case v of
        JDict d \<Rightarrow> (case map_of d k of None \<Rightarrow> Inl (KeyError k) | Some x \<Rightarrow> Inr x)
      | _ \<Rightarrow> Inl TypeError)"

section \<open>The steps of the audit\<close>

subsection \<open>\<^verbatim>\<open>wait_for_server\<close>\<close>

text \<open>The loop of \<^verbatim>\<open>wait_for_server\<close>, with \<^verbatim>\<open>start\<close> as a parameter. It ends because
  every round sleeps three seconds.\<close>

function wait_loop :: "session \<Rightarrow> string \<Rightarrow> int \<Rightarrow> int \<Rightarrow> world \<Rightarrow> (exn + unit) \<times> world" where
  "wait_loop s base_url timeout start w =
     (if clock w - start < 1000 * timeout
      then (case session_get s base_url 10 w of
              (Resp r, w') \<Rightarrow>
                if status_code r = 200 then (Inr (), w')
                else wait_loop s base_url timeout start (sleep 3 w')
            | (Raised, w') \<Rightarrow> wait_loop s base_url timeout start (sleep 3 w'))
      else (Inl (MobSFError (ServerNotReady base_url timeout)), w))"
  by pat_completeness auto
termination
  by (relation "measure (\<lambda>(s, base_url, timeout, start, w). nat (start + 1000 * timeout - clock w))")
     (auto simp: session_get_def http_call_def sleep_def Let_def)

declare wait_loop.simps [simp del]

text \<open>\<^verbatim>\<open>wait_for_server(session, base_url, timeout=120)\<close>; \<^const>\<open>None\<close> is the call
  without the third argument.\<close>

definition wait_timeout :: "int option \<Rightarrow> int" where
  "wait_timeout timeout = (case timeout of None \<Rightarrow> 120 | Some t \<Rightarrow> t)"

definition wait_for_server :: "session \<Rightarrow> string \<Rightarrow> int option \<Rightarrow> world \<Rightarrow> (exn + unit) \<times> world" where
  "wait_for_server s base_url timeout w =
     wait_loop s base_url (wait_timeout timeout) (clock w) w"

subsection \<open>\<^verbatim>\<open>upload_app\<close>\<close>

text \<open>The root directory always exists.\<close>

definition node_at :: "(path \<rightharpoonup> node) \<Rightarrow> path \<Rightarrow> node option" where
  "node_at f p = (if p = [] then Some Dir else f p)"

text \<open>\<^verbatim>\<open>app_path.name\<close>: the last component.\<close>

definition path_name :: "path \<Rightarrow> string" where
  "path_name p = (case rev p of [] \<Rightarrow> [] | x # _ \<Rightarrow> x)"

text \<open>\<^verbatim>\<open>upload_app(session, base_url, app_path)\<close>. Opening a directory or a missing file
  raises \<^verbatim>\<open>OSError\<close>. \<^verbatim>\<open>required - payload.keys()\<close> needs a dict. The three required
  keys are listed in sorted order, so the filtered list is \<^verbatim>\<open>sorted(missing)\<close>.\<close>

definition upload_app :: "session \<Rightarrow> string \<Rightarrow> path \<Rightarrow> world \<Rightarrow> (exn + json) \<times> world" where
  "upload_app s base_url app_path w =
     (case node_at (fs w) app_path of
        Some (File content) \<Rightarrow>
          (case session_post s (base_url @ ''/api/v1/upload'')
                  (FilesBody (path_name app_path) content) 120 w of
             (Raised, w') \<Rightarrow> (Inl RequestException, w')
           | (Resp r, w') \<Rightarrow>
               (case raise_for_status r ''Upload'' of
                  Inl x \<Rightarrow> (Inl x, w')
                | Inr _ \<Rightarrow>
                    (case response_json r of
                       Inl x \<Rightarrow> (Inl x, w')
                     | Inr payload \<Rightarrow>
                         (case payload of
                            JDict d \<Rightarrow>
                              (let missing = filter (\<lambda>k. k \<notin> set (map fst d))
                                               [''file_name'', ''hash'', ''scan_type'']
                               in if missing \<noteq> []
                                  then (Inl (MobSFError (UploadMissingKeys missing)), w')
                                  else (Inr payload, w'))
                          | _ \<Rightarrow> (Inl AttributeError, w')))))
      | _ \<Rightarrow> (Inl OSError, w))"

subsection \<open>\<^verbatim>\<open>trigger_scan\<close> and \<^verbatim>\<open>request_masvs_report\<close>\<close>

text \<open>The dict literal \<^verbatim>\<open>scan_payload\<close>; its values are looked up in the order written.\<close>

definition scan_payload_of :: "json \<Rightarrow> exn + (string \<times> json) list" where
  "scan_payload_of upload_meta =
     (case py_subscript upload_meta ''scan_type'' of
        Inl x \<Rightarrow> Inl x
      | Inr st \<Rightarrow>
          (case py_subscript upload_meta ''file_name'' of
             Inl x \<Rightarrow> Inl x
           | Inr fn \<Rightarrow>
               (case py_subscript upload_meta ''hash'' of
                  Inl x \<Rightarrow> Inl x
                | Inr h \<Rightarrow> Inr [(''scan_type'', st), (''file_name'', fn), (''hash'', h)])))"

text \<open>The last two statements of both functions: \<^verbatim>\<open>_raise_for_status(response, context)\<close>
  and \<^verbatim>\<open>return response.json()\<close>.\<close>

definition checked_json :: "response \<Rightarrow> string \<Rightarrow> exn + json" where
  "checked_json r context =
     (case raise_for_status r context of Inl x \<Rightarrow> Inl x | Inr _ \<Rightarrow> response_json r)"

definition trigger_scan :: "session \<Rightarrow> string \<Rightarrow> json \<Rightarrow> world \<Rightarrow> (exn + json) \<times> world" where
  "trigger_scan s base_url upload_meta w =
     (case scan_payload_of upload_meta of
        Inl x \<Rightarrow> (Inl x, w)
      | Inr scan_payload \<Rightarrow>
          (case session_post s (base_url @ ''/api/v1/scan'') (JsonBody scan_payload) 120 w of
             (Raised, w1) \<Rightarrow> (Inl RequestException, w1)
           | (Resp r1, w1) \<Rightarrow>
               if status_code r1 = 415
               then (case session_post s (base_url @ ''/api/v1/scan'')
                            (FormBody scan_payload) 120 w1 of
                       (Raised, w2) \<Rightarrow> (Inl RequestException, w2)
                     | (Resp r2, w2) \<Rightarrow> (checked_json r2 ''Scan'', w2))
               else (checked_json r1 ''Scan'', w1)))"

definition request_masvs_report ::
    "session \<Rightarrow> string \<Rightarrow> json \<Rightarrow> string \<Rightarrow> world \<Rightarrow> (exn + json) \<times> world" where
  "request_masvs_report s base_url upload_meta lvl w =
     (case scan_payload_of upload_meta of
        Inl x \<Rightarrow> (Inl x, w)
      | Inr scan_payload \<Rightarrow>
          (let endpoint = base_url @ ''/api/v1/masvs'';
               pl = scan_payload @ [(''masvs_level'', JStr lvl)]
           in case session_post s endpoint (JsonBody pl) 60 w of
                (Raised, w1) \<Rightarrow> (Inl RequestException, w1)
              | (Resp r1, w1) \<Rightarrow>
                  if status_code r1 = 400 \<or> status_code r1 = 415
                  then (case session_post s endpoint (FormBody pl) 60 w1 of
                          (Raised, w2) \<Rightarrow> (Inl RequestException, w2)
                        | (Resp r2, w2) \<Rightarrow> (checked_json r2 ''MASVS report'', w2))
                  else (checked_json r1 ''MASVS report'', w1)))"

subsection \<open>\<^verbatim>\<open>wait_for_scan_completion\<close>\<close>

text \<open>The polling loop. It reads the module constant \<^verbatim>\<open>POLL_DELAY_SECONDS\<close> in every
  round; the constant is positive, so the clock moves and the loop ends.\<close>

function poll_loop ::
    "process \<Rightarrow> session \<Rightarrow> string \<Rightarrow> (string \<times> json) list \<Rightarrow> int \<Rightarrow> world \<Rightarrow> (exn + unit) \<times> world" where
  "poll_loop ps s report_endpoint pl deadline w =
     (if clock w < deadline
      then (case session_post s report_endpoint (JsonBody pl) 30 w of
              (Resp r, w') \<Rightarrow>
                if status_code r = 200 then (Inr (), w')
                else poll_loop ps s report_endpoint pl deadline (sleep (POLL_DELAY_SECONDS ps) w')
            | (Raised, w') \<Rightarrow>
                poll_loop ps s report_endpoint pl deadline (sleep (POLL_DELAY_SECONDS ps) w'))
      else (Inl (MobSFError PollTimedOut), w))"
  by pat_completeness auto
termination
proof -
  have pos: "0 < POLL_DELAY_SECONDS ps" for ps
    by (auto simp: POLL_DELAY_SECONDS_def get_positive_int_env_def
          DEFAULT_POLL_DELAY_SECONDS_def split: option.splits)
  have step: "- int n < 1000 * POLL_DELAY_SECONDS ps" for n ps
    using pos [of ps] by linarith
  show ?thesis
    by (relation "measure (\<lambda>(ps, s, e, pl, deadline, w). nat (deadline - clock w))")
       (auto simp: session_post_def http_call_def sleep_def Let_def step)
qed

declare poll_loop.simps [simp del]

definition wait_for_scan_completion ::
    "process \<Rightarrow> session \<Rightarrow> string \<Rightarrow> json \<Rightarrow> world \<Rightarrow> (exn + unit) \<times> world" where
  "wait_for_scan_completion ps s base_url upload_meta w =
     (let deadline = clock w + 1000 * POLL_TIMEOUT_SECONDS ps;
          report_endpoint = base_url @ ''/api/v1/report_json''
      in case py_subscript upload_meta ''hash'' of
           Inl x \<Rightarrow> (Inl x, w)
         | Inr h \<Rightarrow> poll_loop ps s report_endpoint [(''hash'', h)] deadline w)"

subsection \<open>Writing the report: \<^verbatim>\<open>json.dumps(masvs_raw, indent=2)\<close>\<close>

text \<open>A JSON string literal as \<^verbatim>\<open>json.dumps\<close> writes it with \<^verbatim>\<open>ensure_ascii\<close>: the
  double quote and the backslash are escaped, backspace, form feed, newline, carriage
  return and tab get their letters, and every other code point outside the range from
  the space to the tilde is written \<^verbatim>\<open>\u00hh\<close>.\<close>

definition json_escape_char :: "char \<Rightarrow> string" where
  "json_escape_char c =
     (let n = (of_char c :: nat)
      in if n = 34 then [CHR 0x5C, CHR 0x22]
         else if n = 92 then [CHR 0x5C, CHR 0x5C]
         else if n = 10 then [CHR 0x5C, CHR ''n'']
         else if n = 13 then [CHR 0x5C, CHR ''r'']
         else if n = 9 then [CHR 0x5C, CHR ''t'']
         else if n = 8 then [CHR 0x5C, CHR ''b'']
         else if n = 12 then [CHR 0x5C, CHR ''f'']
         else if n < 32 \<or> 126 < n then [CHR 0x5C] @ ''u00'' @ hex2 n
         else [c])"

definition json_string :: "string \<Rightarrow> string" where
  "json_string s = [CHR 0x22] @ concat (map json_escape_char s) @ [CHR 0x22]"

text \<open>A line break followed by the indentation of nesting depth \<^term>\<open>lv\<close>, two spaces
  for each level.\<close>

definition newline_indent :: "nat \<Rightarrow> string" where
  "newline_indent lv = CHR 0x0A # replicate (2 * lv) CHR '' ''"

text \<open>The encoder at nesting depth \<^term>\<open>lv\<close>. An empty list or dict is written without
  a line break; the items of the others stand on lines of their own, separated by a
  comma, and a key is separated from its value by a colon and a space.\<close>

fun dumps_at :: "nat \<Rightarrow> json \<Rightarrow> string" where
  "dumps_at lv JNull = ''null''"
| "dumps_at lv (JBool b) = (if b then ''true'' else ''false'')"
| "dumps_at lv (JInt i) = int_dec i"
| "dumps_at lv (JStr s) = json_string s"
| "dumps_at lv (JList xs) =
     (if xs = [] then ''[]''
      else ''['' @ newline_indent (lv + 1)
           @ py_join ('','' @ newline_indent (lv + 1)) (map (dumps_at (lv + 1)) xs)
           @ newline_indent lv @ '']'')"
| "dumps_at lv (JDict kvs) =
     (if kvs = [] then ''{}''
      else ''{'' @ newline_indent (lv + 1)
           @ py_join ('','' @ newline_indent (lv + 1))
               (map (\<lambda>(k, v). json_string k @ '': '' @ dumps_at (lv + 1) v) kvs)
           @ newline_indent lv @ ''}'')"

definition json_dumps_indent2 :: "json \<Rightarrow> string" where
  "json_dumps_indent2 v = dumps_at 0 v"

text \<open>\<^verbatim>\<open>d.mkdir(parents=True, exist_ok=True)\<close>: a directory that exists is left alone, a
  file in its place raises \<^verbatim>\<open>OSError\<close>, and a missing directory is made after its
  parent.\<close>

function mkdir_parents :: "path \<Rightarrow> (path \<rightharpoonup> node) \<Rightarrow> exn + (path \<rightharpoonup> node)" where
  "mkdir_parents d f =
     (case node_at f d of
        Some Dir \<Rightarrow> Inr f
      | Some (File _) \<Rightarrow> Inl OSError
      | None \<Rightarrow>
          (case mkdir_parents (butlast d) f of
             Inl x \<Rightarrow> Inl x
           | Inr f' \<Rightarrow> Inr (f'(d \<mapsto> Dir))))"
  by pat_completeness auto
termination
  by (relation "measure (\<lambda>(d, f). length d)") (auto simp: node_at_def split: if_splits)

declare mkdir_parents.simps [simp del]

text \<open>\<^verbatim>\<open>p.write_text(content)\<close>: the parent must be a directory and the path must not be
  one; the file is created or replaced. The content is written as it is (text mode on
  POSIX; the output of \<^verbatim>\<open>json.dumps\<close> is ASCII).\<close>

definition write_text :: "path \<Rightarrow> string \<Rightarrow> (path \<rightharpoonup> node) \<Rightarrow> exn + (path \<rightharpoonup> node)" where
  "write_text p content f =
     (if node_at f p = Some Dir \<or> node_at f (butlast p) \<noteq> Some Dir then Inl OSError
      else Inr (f(p \<mapsto> File content)))"

subsection \<open>\<^verbatim>\<open>render_failures\<close>\<close>

definition render_entry :: "json \<Rightarrow> exn + string" where
  "render_entry entry =
     (case entry of
        JDict e \<Rightarrow>
          (let requirement = py_or (py_or (py_or (dict_get e ''control'') (dict_get e ''id''))
                                      (dict_get e ''title'')) (JStr ''Unknown control'');
               description = py_or (py_or (dict_get e ''description'') (dict_get e ''details''))
                               (JStr []);
               guidance = py_or (py_or (dict_get e ''remediation'') (dict_get e ''remedy''))
                            (JStr [])
           in Inr (''- '' @ py_str requirement @ [CHR 0x0A] @ ''  Description: ''
                   @ py_str description @ [CHR 0x0A] @ ''  Guidance: '' @ py_str guidance))
      | _ \<Rightarrow> Inl AttributeError)"

fun render_lines :: "json list \<Rightarrow> string list \<Rightarrow> exn + string list" where
  "render_lines [] lines = Inr lines"
| "render_lines (entry # rest) lines =
     (case render_entry entry of
        Inl x \<Rightarrow> Inl x
      | Inr l \<Rightarrow> render_lines rest (lines @ [l]))"

definition render_failures :: "json list \<Rightarrow> exn + string" where
  "render_failures failures =
     (case render_lines failures [] of
        Inl x \<Rightarrow> Inl x
      | Inr lines \<Rightarrow> Inr (py_join [CHR 0x0A] lines))"

subsection \<open>\<^verbatim>\<open>run_masvs_audit\<close>\<close>

text \<open>A pure computation that may raise, and an effect that cannot, as steps.\<close>

definition lift :: "exn + 'a \<Rightarrow> world \<Rightarrow> (exn + 'a) \<times> world" where
  "lift r w = (r, w)"

definition effect :: "(world \<Rightarrow> world) \<Rightarrow> world \<Rightarrow> (exn + unit) \<times> world" where
  "effect g w = (Inr (), g w)"

definition fs_step :: "((path \<rightharpoonup> node) \<Rightarrow> exn + (path \<rightharpoonup> node)) \<Rightarrow> world \<Rightarrow> (exn + unit) \<times> world" where
  "fs_step g w = (case g (fs w) of Inl x \<Rightarrow> (Inl x, w) | Inr f \<Rightarrow> (Inr (), w\<lparr>fs := f\<rparr>))"

text \<open>The block under \<^verbatim>\<open>if output_path:\<close>.\<close>

definition save_raw_report :: "path option \<Rightarrow> json \<Rightarrow> world \<Rightarrow> (exn + unit) \<times> world" where
  "save_raw_report output_path masvs_raw =
     (case output_path of
        None \<Rightarrow> lift (Inr ())
      | Some p \<Rightarrow>
          bind (fs_step (mkdir_parents (butlast p))) (\<lambda>_.
          bind (fs_step (write_text p (json_dumps_indent2 masvs_raw))) (\<lambda>_.
          effect (print (RawSaved p)))))"

text \<open>The statements after \<^verbatim>\<open>result = parse_masvs(masvs_raw, level)\<close>.\<close>

definition report_result :: "bool \<Rightarrow> MASVSResult \<Rightarrow> world \<Rightarrow> (exn + MASVSResult) \<times> world" where
  "report_result fail_on_violation result =
     bind (effect (print (LevelSummary (level result) (py_str (passed result))
                            (length (failed result))))) (\<lambda>_.
     if py_truthy (JList (failed result))
     then bind (effect (print NonCompliantHeader)) (\<lambda>_.
          bind (lift (render_failures (failed result))) (\<lambda>rendered.
          bind (effect (print (Failures rendered))) (\<lambda>_.
          if fail_on_violation then lift (Inl (MobSFError PolicyViolation))
          else lift (Inr result))))
     else bind (effect (print AllPassed)) (\<lambda>_. lift (Inr result)))"

text \<open>The statements from the start of \<^verbatim>\<open>run_masvs_audit\<close> to
  \<^verbatim>\<open>masvs_raw = request_masvs_report(session, base_url, upload_meta, level)\<close>.\<close>

definition fetch_report ::
    "process \<Rightarrow> path \<Rightarrow> string \<Rightarrow> string \<Rightarrow> string \<Rightarrow> world \<Rightarrow> (exn + json) \<times> world" where
  "fetch_report ps app_path lvl base_url api_key w =
     (if node_at (fs w) app_path = None then (Inl (MobSFError (AppNotFound app_path)), w)
      else
        (let s = \<lparr>headers_authorization = api_key\<rparr>
         in (bind (wait_for_server s base_url None) (\<lambda>_.
             bind (effect (print (ServerReachable base_url))) (\<lambda>_.
             bind (upload_app s base_url app_path) (\<lambda>upload_meta.
             bind (lift (py_subscript upload_meta ''file_name'')) (\<lambda>file_name.
             bind (lift (py_subscript upload_meta ''hash'')) (\<lambda>h.
             bind (effect (print (Uploaded (py_str file_name) (py_str h)))) (\<lambda>_.
             bind (trigger_scan s base_url upload_meta) (\<lambda>_.
             bind (effect (print AnalysisStarted)) (\<lambda>_.
             bind (wait_for_scan_completion ps s base_url upload_meta) (\<lambda>_.
             request_masvs_report s base_url upload_meta lvl)))))))))) w))"

definition run_masvs_audit ::
    "process \<Rightarrow> path \<Rightarrow> string \<Rightarrow> bool \<Rightarrow> string \<Rightarrow> string \<Rightarrow> path option
      \<Rightarrow> world \<Rightarrow> (exn + MASVSResult) \<times> world" where
  "run_masvs_audit ps app_path lvl fail_on_violation base_url api_key output_path =
     bind (fetch_report ps app_path lvl base_url api_key) (\<lambda>masvs_raw.
     bind (save_raw_report output_path masvs_raw) (\<lambda>_.
     bind (lift (parse_masvs masvs_raw lvl)) (\<lambda>result.
     report_result fail_on_violation result)))"

subsection \<open>\<^verbatim>\<open>main\<close>\<close>

text \<open>\<^verbatim>\<open>_append_step_summary(summary)\<close>. The text of a summary is never empty, so the
  first test of the function never fires. An \<^verbatim>\<open>OSError\<close> is swallowed.\<close>

definition append_step_summary :: "process \<Rightarrow> summary \<Rightarrow> world \<Rightarrow> world" where
  "append_step_summary ps sm w =
     (case environ ps ''GITHUB_STEP_SUMMARY'' of
        None \<Rightarrow> w
      | Some summary_path \<Rightarrow>
          if summary_path = [] then w
          else if summary_broken w then w
          else w\<lparr>summary_log := summary_log w @ [(summary_path, sm)]\<rparr>)"

text \<open>The conversion \<^verbatim>\<open>type=\<close> of the option \<^verbatim>\<open>--fail-on-violation\<close>.\<close>

definition fail_on_violation_type :: "string \<Rightarrow> bool" where
  "fail_on_violation_type v = (py_lower v \<in> {''1'', ''true'', ''yes''})"

text \<open>The namespace \<^verbatim>\<open>parse_args\<close> returns, with the two paths already expanded and
  resolved, as the first statements of \<^verbatim>\<open>main\<close> leave them; \<^verbatim>\<open>args.output\<close> is the
  field \<^verbatim>\<open>output_arg\<close>.\<close>

record args =
  app :: path
  masvs_level :: string
  fail_on_violation :: bool
  mobsf_url :: string
  api_key :: string
  output_arg :: "path option"

text \<open>\<^verbatim>\<open>main\<close>: the exit code it returns, or the exception it lets through.\<close>

definition main :: "process \<Rightarrow> args \<Rightarrow> world \<Rightarrow> (exn + int) \<times> world" where
  "main ps a w =
     (case run_masvs_audit ps (app a) (masvs_level a) (fail_on_violation a) (mobsf_url a)
             (api_key a) (output_arg a) w of
        (Inr result, w') \<Rightarrow>
          (Inr 0,
           append_step_summary ps
             (SummaryDone (py_truthy (JList (failed result))) (level result)
                (py_str (passed result)) (length (failed result)) (output_arg a)) w')
      | (Inl (MobSFError reason), w') \<Rightarrow>
          (Inr 1, append_step_summary ps (SummaryFailed reason) (print_err (ErrorMobSF reason) w'))
      | (Inl RequestException, w') \<Rightarrow>
          (Inr 1, append_step_summary ps SummaryNetworkFailure (print_err ErrorNetworking w'))
      | (Inl x, w') \<Rightarrow> (Inl x, w'))"

section \<open>Notions used to state the properties\<close>

text \<open>The readiness probe seen from the world it starts in: the reply the i-th probe
  gets, whether that reply ends the wait (a response with status 200), and the clock at
  which the i-th probe starts when none before it ended the wait (every failed probe is
  followed by a sleep of three seconds).\<close>

definition probe_reply :: "world \<Rightarrow> nat \<Rightarrow> reply" where
  "probe_reply w i = replies w (length (sent w) + i)"

definition probe_ready :: "world \<Rightarrow> nat \<Rightarrow> bool" where
  "probe_ready w i =
     (case out (probe_reply w i) of Raised \<Rightarrow> False | Resp r \<Rightarrow> status_code r = 200)"

fun probe_start :: "world \<Rightarrow> nat \<Rightarrow> int" where
  "probe_start w 0 = clock w"
| "probe_start w (Suc i) = probe_start w i + int (lat (probe_reply w i)) + 3000"

text \<open>The world after a probe that did not end the wait, and the sleep that follows.\<close>

definition after_probe :: "session \<Rightarrow> string \<Rightarrow> world \<Rightarrow> world" where
  "after_probe s u w = sleep 3 (snd (session_get s u 10 w))"

text \<open>The proper ancestors of a path, the root first.\<close>

definition ancestors :: "path \<Rightarrow> path list" where
  "ancestors p = map (\<lambda>k. take k p) [0..<length p]"

definition is_file :: "node option \<Rightarrow> bool" where
  "is_file n = (case n of Some (File _) \<Rightarrow> True | _ \<Rightarrow> False)"

section \<open>Concrete payloads and environments\<close>

text \<open>Inputs on which the theorems below are instantiated.\<close>

definition ex_pass_entries :: "json list" where
  "ex_pass_entries =
     [JDict [(''control'', JStr ''C1''), (''status'', JStr '' PASS '')],
      JDict [(''control'', JStr ''C2''), (''value'', JStr ''Compliant'')]]"

definition ex_pass_doc :: "(string \<times> json) list" where
  "ex_pass_doc = [(''controls'', JList ex_pass_entries)]"

definition ex_mixed_entries :: "json list" where
  "ex_mixed_entries =
     [JDict [(''control'', JStr ''C1''), (''status'', JStr ''Passed'')],
      JDict [(''control'', JStr ''C2'')],
      JDict [(''control'', JStr ''C3''), (''status'', JStr ''warning'')]]"

definition ex_mixed_doc :: "(string \<times> json) list" where
  "ex_mixed_doc = [(''masvs_controls'', JList ex_mixed_entries),
                   (''summary'', JDict [(''failed'', JList [JStr ''X''])])]"

definition ex_summary :: "(string \<times> json) list" where
  "ex_summary = [(''failed'', JList [JDict [(''id'', JStr ''MSTG-1'')]]), (''passed'', JInt 7)]"

definition ex_aggregate_doc :: "(string \<times> json) list" where
  "ex_aggregate_doc = [(''controls'', JList []), (''masvs_summary'', JDict ex_summary)]"

definition ex_empty_doc :: "(string \<times> json) list" where
  "ex_empty_doc = [(''controls'', JList []), (''version'', JStr ''4.0'')]"

definition ex_process :: process where
  "ex_process =
     \<lparr>environ = [''MOBSF_POLL_DELAY_SECONDS'' \<mapsto> '' 30 '',
                  ''MOBSF_POLL_TIMEOUT_SECONDS'' \<mapsto> ''-5''],
      int_max_str_digits = 4300\<rparr>"

text \<open>The payload of the example in the specification, and its second entry.\<close>

definition c1_failed_entry :: json where
  "c1_failed_entry =
     JDict [(''control'', JStr ''C2''), (''status'', JStr ''Failed''),
            (''description'', JStr ''d''), (''remediation'', JStr ''r'')]"

definition c1_payload :: json where
  "c1_payload =
     JDict [(''controls'',
             JList [JDict [(''control'', JStr ''C1''), (''status'', JStr ''Passed'')],
                    c1_failed_entry])]"

text \<open>A service that refuses the first connection, then answers the probe, the upload
  (with the metadata of the example), the scan trigger, the first poll with 404, the
  second with 200, and every later call with the response \<^term>\<open>r\<close>.\<close>

definition ex_meta :: json where
  "ex_meta = JDict [(''hash'', JStr ''abc''), (''scan_type'', JStr ''apk''),
                    (''file_name'', JStr ''app.apk'')]"

text \<open>A response with the status 200 whose body is a JSON text of the value \<^term>\<open>j\<close>
  (here the text \<^verbatim>\<open>json.dumps\<close> writes with \<^verbatim>\<open>indent=2\<close>), and the reply that brings
  it after 100 milliseconds.\<close>

definition json_response :: "json \<Rightarrow> response" where
  "json_response j =
     \<lparr>status_code = 200, body_text = json_dumps_indent2 j, json_body = Some j\<rparr>"

definition ok_reply :: "json \<Rightarrow> reply" where
  "ok_reply j = \<lparr>lat = 100, out = Resp (json_response j)\<rparr>"

definition ex_service :: "response \<Rightarrow> nat \<Rightarrow> reply" where
  "ex_service r k =
     (if k = 0 then \<lparr>lat = 50, out = Raised\<rparr>
      else if k = 1 then \<lparr>lat = 100, out = Resp \<lparr>status_code = 200, body_text = ''MobSF'',
                                                json_body = None\<rparr>\<rparr>
      else if k = 2 then ok_reply ex_meta
      else if k = 3 then ok_reply (JDict [])
      else if k = 4 then \<lparr>lat = 100, out = Resp \<lparr>status_code = 404, body_text = ''no report'',
                                                json_body = None\<rparr>\<rparr>
      else if k = 5 then ok_reply (JDict [])
      else \<lparr>lat = 100, out = Resp r\<rparr>)"

definition ex_app :: path where
  "ex_app = [''work'', ''app.apk'']"

definition ex_out :: path where
  "ex_out = [''work'', ''reports'', ''masvs'', ''raw.json'']"

definition ex_world :: "response \<Rightarrow> world" where
  "ex_world r =
     \<lparr>clock = 0, replies = ex_service r, sent = [],
      fs = [[''work''] \<mapsto> Dir, ex_app \<mapsto> File ''binary''],
      stdout = [], stderr = [], summary_log = [], summary_broken = False\<rparr>"

definition ex_url :: string where
  "ex_url = ''http://127.0.0.1:8000''"

text \<open>The response that carries the payload of the example, and one whose body is the
  compact text \<^verbatim>\<open>{"controls": []}\<close>.\<close>

definition c1_response :: response where
  "c1_response = json_response c1_payload"

definition compact_response :: response where
  "compact_response =
     \<lparr>status_code = 200,
      body_text = ''{'' @ [CHR 0x22] @ ''controls'' @ [CHR 0x22] @ '': []}'',
      json_body = Some (JDict [(''controls'', JList [])])\<rparr>"

text \<open>The response whose payload cannot be classified: \<^verbatim>\<open>{"controls": 5}\<close>.\<close>

definition odd_response :: response where
  "odd_response =
     \<lparr>status_code = 200,
      body_text = ''{'' @ [CHR 0x22] @ ''controls'' @ [CHR 0x22] @ '': 5}'',
      json_body = Some (JDict [(''controls'', JInt 5)])\<rparr>"

text \<open>A world whose service answers the first request with the status \<^term>\<open>n\<close> and
  every later one with 200 and a JSON object; and a world whose service is down.\<close>

definition ex_retry_world :: "nat \<Rightarrow> world" where
  "ex_retry_world n =
     ex_world c1_response
       \<lparr>replies := \<lambda>k. if k = 0
                        then \<lparr>lat = 20, out = Resp \<lparr>status_code = n, body_text = ''rejected'',
                                                    json_body = None\<rparr>\<rparr>
                        else ok_reply (JDict [(''ok'', JBool True)])\<rparr>"

definition ex_down_world :: world where
  "ex_down_world = ex_world c1_response\<lparr>replies := \<lambda>_. \<lparr>lat = 10000, out = Raised\<rparr>\<rparr>"

definition ex_session :: session where
  "ex_session = \<lparr>headers_authorization = ''key''\<rparr>"

section \<open>Properties of the classification\<close>

text \<open>On a list of dicts the loop never raises: it counts the entries that pass and
  keeps the others, in their order.\<close>

lemma classify_dicts:
  "\<forall>e \<in> set es. is_dict e \<Longrightarrow>
   classify es n acc =
     Inr (n + length (filter entry_passes es), acc @ filter (\<lambda>e. \<not> entry_passes e) es)"
proof (induction es arbitrary: n acc)
  case Nil
  then show ?case by simp
next
  case (Cons e es)
  then obtain kv where e: "e = JDict kv" by (cases e) (auto simp: is_dict_def)
  from Cons show ?case by (simp add: e entry_passes_def Let_def)
qed

lemma entry_passes_is_dict: "entry_passes e \<Longrightarrow> is_dict e"
  by (cases e) (simp_all add: entry_passes_def is_dict_def)

text \<open>The result on the per-control path: the list is not empty, or there is no
  aggregate to replace it.\<close>

lemma parse_masvs_list:
  assumes "controls_of d = JList es" and "\<forall>e \<in> set es. is_dict e"
    and "es \<noteq> [] \<or> \<not> py_truthy (aggregate_of d)"
  shows "parse_masvs (JDict d) lvl =
           Inr \<lparr>level = lvl, passed = JInt (int (length (filter entry_passes es))),
                failed = filter (\<lambda>e. \<not> entry_passes e) es\<rparr>"
  using assms by (auto simp: parse_masvs_def py_iter_def classify_dicts Let_def)

text \<open>The result on the aggregate path. An empty aggregate dict is falsy and leaves
  the counters of the loop, which are the values the aggregate branch would compute.\<close>

lemma parse_masvs_aggregate:
  assumes "\<not> py_truthy (controls_of d)" and "aggregate_of d = JDict a"
  shows "parse_masvs (JDict d) lvl =
           Inr \<lparr>level = lvl, passed = aggregate_passed a, failed = aggregate_failed a\<rparr>"
proof -
  have c: "controls_of d = JList []"
    using assms(1) by (auto simp: controls_of_def py_or_def split: if_splits)
  show ?thesis
  proof (cases "a = []")
    case True
    then show ?thesis using assms(2) c
      by (simp add: parse_masvs_def py_iter_def Let_def aggregate_passed_def
          aggregate_failed_def dict_get_def dict_get_default_def py_or_def)
  next
    case False
    then show ?thesis using assms(2) c
      by (simp add: parse_masvs_def py_iter_def Let_def)
  qed
qed

lemma parse_masvs_controls_only:
  assumes "py_truthy (controls_of d)" and "controls_of d' = controls_of d"
  shows "parse_masvs (JDict d') lvl = parse_masvs (JDict d) lvl"
  using assms by (simp add: parse_masvs_def Let_def split: sum.splits prod.splits)

lemma no_status_fails:
  assumes "\<not> py_truthy (dict_get kv ''status'')" and "\<not> py_truthy (dict_get kv ''value'')"
  shows "\<not> entry_passes (JDict kv)"
  using assms
  by (simp add: entry_passes_def entry_status_def py_or_def py_lower_def py_strip_def
      PASS_TOKENS_def)

text \<open>
  \<^bold>\<open>C2.\<close> When every entry of the per-control list is a dict whose status, stripped and
  lower-cased, is a pass token, \<^verbatim>\<open>parse_masvs\<close> returns a result with an empty
  \<^verbatim>\<open>failed\<close> list, \<^verbatim>\<open>is_compliant\<close> holds of it, and every entry is counted as passed.
  For every result, \<^verbatim>\<open>is_compliant\<close> is true exactly when \<^verbatim>\<open>failed\<close> is empty.
  The list is the one the payload is read for: it is not empty, or the payload has no
  aggregate summary (an empty list counts as no list, and then a summary is used).
\<close>

theorem all_pass_compliant:
  assumes "controls_of d = JList es"
    and "\<forall>e \<in> set es. entry_passes e"
    and "es \<noteq> [] \<or> \<not> py_truthy (aggregate_of d)"
  shows "(\<exists>r. parse_masvs (JDict d) lvl = Inr r \<and> failed r = [] \<and> is_compliant r
              \<and> passed r = JInt (int (length es)))
         \<and> (\<forall>r. is_compliant r \<longleftrightarrow> failed r = [])"
proof -
  have dicts: "\<forall>e \<in> set es. is_dict e"
    using assms(2) by (simp add: entry_passes_is_dict)
  have none: "filter (\<lambda>e. \<not> entry_passes e) es = []"
    using assms(2) by (simp add: filter_empty_conv)
  have every: "filter entry_passes es = es"
    using assms(2) by (simp add: filter_id_conv)
  show ?thesis
    by (simp add: parse_masvs_list [OF assms(1) dicts assms(3)] none every is_compliant_def)
qed

text \<open>The theorem on a list of two entries, one with the status \<^verbatim>\<open>" PASS "\<close> and one
  with the value \<^verbatim>\<open>"Compliant"\<close>.\<close>

theorem all_pass_compliant_witness:
  "list_all entry_passes ex_pass_entries
   \<and> (\<exists>r. parse_masvs (JDict ex_pass_doc) ''L2'' = Inr r \<and> failed r = [] \<and> is_compliant r
           \<and> passed r = JInt 2)"
proof -
  have h1: "controls_of ex_pass_doc = JList ex_pass_entries" by code_simp
  have h2: "\<forall>e \<in> set ex_pass_entries. entry_passes e" by code_simp
  have h3: "ex_pass_entries \<noteq> [] \<or> \<not> py_truthy (aggregate_of ex_pass_doc)"
    by (simp add: ex_pass_entries_def)
  have n: "length ex_pass_entries = 2" by (simp add: ex_pass_entries_def)
  have "list_all entry_passes ex_pass_entries"
    using h2 by (simp add: list_all_iff)
  with all_pass_compliant [OF h1 h2 h3, of "''L2''"] show ?thesis
    unfolding n by auto
qed

text \<open>
  \<^bold>\<open>C3.\<close> In a per-control list of dicts, every entry whose status (the value of
  \<^verbatim>\<open>status\<close>, or else of \<^verbatim>\<open>value\<close>, the first truthy one), stripped and lower-cased,
  is no pass token is in the \<^verbatim>\<open>failed\<close> list of the result, as the same value; the
  \<^verbatim>\<open>failed\<close> list is the list of these entries in their order. An entry with no status,
  or an empty one, under both keys is such an entry.
\<close>

theorem failing_entry_kept:
  assumes "controls_of d = JList es"
    and "\<forall>x \<in> set es. is_dict x"
    and "e \<in> set es"
    and "\<not> entry_passes e"
  shows "(\<exists>r. parse_masvs (JDict d) lvl = Inr r \<and> e \<in> set (failed r)
              \<and> failed r = filter (\<lambda>x. \<not> entry_passes x) es)
         \<and> (\<forall>kv. \<not> py_truthy (dict_get kv ''status'') \<and> \<not> py_truthy (dict_get kv ''value'')
                \<longrightarrow> \<not> entry_passes (JDict kv))"
proof -
  have ne: "es \<noteq> [] \<or> \<not> py_truthy (aggregate_of d)"
    using assms(3) by auto
  show ?thesis
    using assms(3,4) by (simp add: parse_masvs_list [OF assms(1,2) ne] no_status_fails)
qed

text \<open>The theorem on a list of three entries: one passes, one has no status, one has
  the status \<^verbatim>\<open>"warning"\<close>. The payload also holds a summary, which is not used.\<close>

theorem failing_entry_kept_witness:
  "\<exists>r. parse_masvs (JDict ex_mixed_doc) ''L1'' = Inr r
       \<and> JDict [(''control'', JStr ''C2'')] \<in> set (failed r)
       \<and> failed r = [JDict [(''control'', JStr ''C2'')],
                      JDict [(''control'', JStr ''C3''), (''status'', JStr ''warning'')]]"
proof -
  have h1: "controls_of ex_mixed_doc = JList ex_mixed_entries" by code_simp
  have h2: "\<forall>x \<in> set ex_mixed_entries. is_dict x" by code_simp
  have h3: "JDict [(''control'', JStr ''C2'')] \<in> set ex_mixed_entries"
    by (simp add: ex_mixed_entries_def)
  have h4: "\<not> entry_passes (JDict [(''control'', JStr ''C2'')])" by code_simp
  have f: "filter (\<lambda>x. \<not> entry_passes x) ex_mixed_entries =
             [JDict [(''control'', JStr ''C2'')],
              JDict [(''control'', JStr ''C3''), (''status'', JStr ''warning'')]]"
    by code_simp
  from failing_entry_kept [OF h1 h2 h3 h4, of "''L1''"] show ?thesis
    by (simp add: f)
qed

text \<open>
  \<^bold>\<open>C4.\<close> When the payload has no per-control list (none, or an empty one) and its
  aggregate summary is a dict, the result takes \<^verbatim>\<open>passed\<close> from the keys \<^verbatim>\<open>pass\<close> and
  \<^verbatim>\<open>passed\<close> of the summary and \<^verbatim>\<open>failed\<close> from its keys \<^verbatim>\<open>failed\<close> and
  \<^verbatim>\<open>non_compliant\<close>, and from nothing else. When the payload has a per-control list,
  the result depends on that list alone: two payloads with the same list give the same
  result, whatever summaries they hold.
\<close>

theorem aggregate_only_when_no_list:
  "(\<not> py_truthy (controls_of d) \<and> aggregate_of d = JDict a \<longrightarrow>
      parse_masvs (JDict d) lvl =
        Inr \<lparr>level = lvl, passed = aggregate_passed a, failed = aggregate_failed a\<rparr>)
   \<and> (py_truthy (controls_of d) \<and> controls_of d' = controls_of d \<longrightarrow>
        parse_masvs (JDict d') lvl = parse_masvs (JDict d) lvl)"
  by (simp add: parse_masvs_aggregate parse_masvs_controls_only)

text \<open>The theorem on a payload with an empty list and a summary, and on the payload of
  the witness before with and without its summary.\<close>

theorem aggregate_only_when_no_list_witness:
  "parse_masvs (JDict ex_aggregate_doc) ''L2'' =
     Inr \<lparr>level = ''L2'', passed = JInt 7, failed = [JDict [(''id'', JStr ''MSTG-1'')]]\<rparr>
   \<and> parse_masvs (JDict ex_mixed_doc) ''L2'' =
       parse_masvs (JDict [(''masvs_controls'', JList ex_mixed_entries)]) ''L2''"
proof -
  have h1: "\<not> py_truthy (controls_of ex_aggregate_doc)" by code_simp
  have h2: "aggregate_of ex_aggregate_doc = JDict ex_summary" by code_simp
  have p: "aggregate_passed ex_summary = JInt 7" by code_simp
  have f: "aggregate_failed ex_summary = [JDict [(''id'', JStr ''MSTG-1'')]]" by code_simp
  have h3: "py_truthy (controls_of [(''masvs_controls'', JList ex_mixed_entries)])"
    by code_simp
  have h4: "controls_of ex_mixed_doc = controls_of [(''masvs_controls'', JList ex_mixed_entries)]"
    by code_simp
  from aggregate_only_when_no_list
         [of ex_aggregate_doc ex_summary "''L2''"]
       aggregate_only_when_no_list
         [of "[(''masvs_controls'', JList ex_mixed_entries)]" a "''L2''" ex_mixed_doc for a]
       h1 h2 h3 h4
  show ?thesis by (simp add: p f)
qed

text \<open>
  \<^bold>\<open>C10.\<close> When the payload has nothing truthy under \<^verbatim>\<open>controls\<close>, \<^verbatim>\<open>masvs_controls\<close>,
  \<^verbatim>\<open>summary\<close> and \<^verbatim>\<open>masvs_summary\<close> (the key is missing, or its value is empty),
  \<^verbatim>\<open>parse_masvs\<close> returns zero passed controls and no failed one, and the result is
  compliant.
\<close>

theorem empty_report_is_compliant:
  assumes "\<not> py_truthy (dict_get d ''controls'')"
    and "\<not> py_truthy (dict_get d ''masvs_controls'')"
    and "\<not> py_truthy (dict_get d ''summary'')"
    and "\<not> py_truthy (dict_get d ''masvs_summary'')"
  shows "parse_masvs (JDict d) lvl = Inr \<lparr>level = lvl, passed = JInt 0, failed = []\<rparr>
         \<and> is_compliant \<lparr>level = lvl, passed = JInt 0, failed = []\<rparr>"
proof -
  have c: "controls_of d = JList []"
    using assms(1,2) by (simp add: controls_of_def py_or_def)
  have a: "\<not> py_truthy (aggregate_of d)"
    using assms(3,4) by (simp add: aggregate_of_def py_or_def)
  show ?thesis
    using parse_masvs_list [of d "[]" lvl] c a by (simp add: is_compliant_def)
qed

text \<open>The theorem on a payload with an empty list and an unrelated key, and on the
  empty payload.\<close>

theorem empty_report_is_compliant_witness:
  "parse_masvs (JDict ex_empty_doc) ''L2'' = Inr \<lparr>level = ''L2'', passed = JInt 0, failed = []\<rparr>
   \<and> is_compliant \<lparr>level = ''L2'', passed = JInt 0, failed = []\<rparr>
   \<and> parse_masvs (JDict []) ''L2'' = Inr \<lparr>level = ''L2'', passed = JInt 0, failed = []\<rparr>"
proof -
  have a: "\<not> py_truthy (dict_get ex_empty_doc ''controls'')"
    "\<not> py_truthy (dict_get ex_empty_doc ''masvs_controls'')"
    "\<not> py_truthy (dict_get ex_empty_doc ''summary'')"
    "\<not> py_truthy (dict_get ex_empty_doc ''masvs_summary'')"
    by code_simp+
  have b: "\<not> py_truthy (dict_get [] k)" for k
    by (simp add: dict_get_def dict_get_default_def)
  from empty_report_is_compliant [OF a, of "''L2''"]
       empty_report_is_compliant [OF b b b b, of "''L2''"]
  show ?thesis by simp
qed

section \<open>Properties of the configuration\<close>

text \<open>
  \<^bold>\<open>C5.\<close> \<^verbatim>\<open>_get_positive_int_env\<close> returns for every value of the variable: when
  \<^verbatim>\<open>int\<close> reads the value as a positive integer, that integer, with nothing printed; in
  every other case (\<^verbatim>\<open>int\<close> raises \<^verbatim>\<open>ValueError\<close>, or the integer is zero or negative)
  the default, after one warning on the error stream. The poll delay is read with the
  default 5, the poll timeout with the default 600.
\<close>

theorem env_override_falls_back:
  assumes "environ ps name = Some raw"
  shows "(\<forall>n. py_int (int_max_str_digits ps) raw = Some n \<and> 0 < n \<longrightarrow>
            get_positive_int_env ps name dflt = (n, []))
       \<and> ((\<forall>n. py_int (int_max_str_digits ps) raw = Some n \<longrightarrow> n \<le> 0) \<longrightarrow>
            fst (get_positive_int_env ps name dflt) = dflt
            \<and> length (snd (get_positive_int_env ps name dflt)) = 1)
       \<and> POLL_DELAY_SECONDS ps = fst (get_positive_int_env ps ''MOBSF_POLL_DELAY_SECONDS'' 5)
       \<and> POLL_TIMEOUT_SECONDS ps = fst (get_positive_int_env ps ''MOBSF_POLL_TIMEOUT_SECONDS'' 600)"
  using assms
  by (auto simp: get_positive_int_env_def POLL_DELAY_SECONDS_def POLL_TIMEOUT_SECONDS_def
      DEFAULT_POLL_DELAY_SECONDS_def DEFAULT_POLL_TIMEOUT_SECONDS_def split: option.splits)

text \<open>The theorem in a process whose delay is set to \<^verbatim>\<open>" 30 "\<close> and whose timeout is
  set to \<^verbatim>\<open>"-5"\<close>.\<close>

theorem env_override_falls_back_witness:
  "POLL_DELAY_SECONDS ex_process = 30
   \<and> POLL_TIMEOUT_SECONDS ex_process = 600
   \<and> length (snd (get_positive_int_env ex_process ''MOBSF_POLL_TIMEOUT_SECONDS'' 600)) = 1"
proof -
  have e1: "environ ex_process ''MOBSF_POLL_DELAY_SECONDS'' = Some '' 30 ''"
    by (simp add: ex_process_def)
  have e2: "environ ex_process ''MOBSF_POLL_TIMEOUT_SECONDS'' = Some ''-5''"
    by (simp add: ex_process_def)
  have l: "int_max_str_digits ex_process = 4300" by (simp add: ex_process_def)
  have p1: "py_int 4300 '' 30 '' = Some 30" by code_simp
  have p2: "py_int 4300 ''-5'' = Some (- 5)" by code_simp
  from env_override_falls_back [OF e1, of 5] env_override_falls_back [OF e2, of 600]
  show ?thesis by (simp add: l p1 p2)
qed

section \<open>Properties of the calls to the service\<close>

lemma session_post_reply:
  "session_post s u b t w =
     (out (replies w (length (sent w))),
      w\<lparr>clock := clock w + int (lat (replies w (length (sent w)))),
        sent := sent w @ [post_request s u b t]\<rparr>)"
  by (simp add: session_post_def http_call_def Let_def)

lemma session_get_reply:
  "session_get s u t w =
     (out (replies w (length (sent w))),
      w\<lparr>clock := clock w + int (lat (replies w (length (sent w)))),
        sent := sent w @ [get_request s u t]\<rparr>)"
  by (simp add: session_get_def http_call_def Let_def)

lemma checked_json_cases:
  "checked_json r c =
     (if http_error_status (status_code r)
      then Inl (MobSFError (StatusFailed c (status_code r) (body_text r)))
      else response_json r)"
  by (simp add: checked_json_def raise_for_status_def)

subsection \<open>The upload\<close>

lemma upload_app_result:
  assumes "node_at (fs w) app_path = Some (File content)"
    and "out (replies w (length (sent w))) = Resp r"
    and "\<not> http_error_status (status_code r)"
    and "json_body r = Some (JDict d)"
  shows "fst (upload_app s base_url app_path w) =
           (let missing = filter (\<lambda>k. k \<notin> fst ` set d) [''file_name'', ''hash'', ''scan_type'']
            in if missing = [] then Inr (JDict d) else Inl (MobSFError (UploadMissingKeys missing)))"
  using assms
  by (simp add: upload_app_def session_post_reply raise_for_status_def response_json_def Let_def)

text \<open>
  \<^bold>\<open>C6.\<close> The binary can be read, the service answers the upload with a response whose
  status \<^verbatim>\<open>raise_for_status\<close> accepts (not 400 to 599), and the body of the response is a
  JSON object. Then \<^verbatim>\<open>upload_app\<close> raises \<^verbatim>\<open>MobSFError\<close> exactly when one of the keys
  \<^verbatim>\<open>hash\<close>, \<^verbatim>\<open>scan_type\<close> and \<^verbatim>\<open>file_name\<close> is missing from the object, and returns
  the object as it is when all three are there.
\<close>

theorem upload_requires_all_fields:
  assumes "node_at (fs w) app_path = Some (File content)"
    and "out (replies w (length (sent w))) = Resp r"
    and "\<not> http_error_status (status_code r)"
    and "json_body r = Some (JDict d)"
  shows "((\<exists>reason. fst (upload_app s base_url app_path w) = Inl (MobSFError reason))
            \<longleftrightarrow> \<not> {''hash'', ''scan_type'', ''file_name''} \<subseteq> fst ` set d)
       \<and> ({''hash'', ''scan_type'', ''file_name''} \<subseteq> fst ` set d
            \<longrightarrow> fst (upload_app s base_url app_path w) = Inr (JDict d))"
  unfolding upload_app_result [OF assms] by (auto simp: Let_def)

text \<open>The theorem on two answers to the upload: the metadata of the example, and an
  object without \<^verbatim>\<open>hash\<close>.\<close>

theorem upload_requires_all_fields_witness:
  "fst (upload_app \<lparr>headers_authorization = ''key''\<rparr> ex_url ex_app
          (ex_world c1_response\<lparr>replies := \<lambda>_. ok_reply ex_meta\<rparr>)) = Inr ex_meta
   \<and> (\<exists>reason. fst (upload_app \<lparr>headers_authorization = ''key''\<rparr> ex_url ex_app
          (ex_world c1_response\<lparr>replies := \<lambda>_. ok_reply (JDict [(''scan_type'', JStr ''apk''),
             (''file_name'', JStr ''app.apk'')])\<rparr>)) = Inl (MobSFError reason))"
proof -
  let ?w1 = "ex_world c1_response\<lparr>replies := \<lambda>_. ok_reply ex_meta\<rparr>"
  let ?d2 = "[(''scan_type'', JStr ''apk''), (''file_name'', JStr ''app.apk'')]"
  let ?w2 = "ex_world c1_response\<lparr>replies := \<lambda>_. ok_reply (JDict ?d2)\<rparr>"
  let ?d1 = "[(''hash'', JStr ''abc''), (''scan_type'', JStr ''apk''),
              (''file_name'', JStr ''app.apk'')]"
  have f1: "node_at (fs ?w1) ex_app = Some (File ''binary'')"
    and f2: "node_at (fs ?w2) ex_app = Some (File ''binary'')"
    by (simp_all add: ex_world_def node_at_def ex_app_def)
  have r1: "out (replies ?w1 (length (sent ?w1))) = Resp (json_response ex_meta)"
    and r2: "out (replies ?w2 (length (sent ?w2))) = Resp (json_response (JDict ?d2))"
    by (simp_all add: ok_reply_def)
  have ok: "\<not> http_error_status (status_code (json_response j))" for j
    by (simp add: http_error_status_def json_response_def)
  have j1: "json_body (json_response ex_meta) = Some (JDict ?d1)"
    by (simp add: ex_meta_def json_response_def)
  have j2: "json_body (json_response (JDict ?d2)) = Some (JDict ?d2)"
    by (simp add: json_response_def)
  from upload_requires_all_fields [OF f1 r1 ok j1, of "\<lparr>headers_authorization = ''key''\<rparr>" ex_url]
       upload_requires_all_fields [OF f2 r2 ok j2, of "\<lparr>headers_authorization = ''key''\<rparr>" ex_url]
  show ?thesis by (simp add: ex_meta_def)
qed

text \<open>Outside the theorem: a body that is a JSON document but no object has no
  \<^verbatim>\<open>keys\<close>, and a body that is no JSON document makes \<^verbatim>\<open>response.json()\<close> raise.\<close>

lemma upload_without_object:
  assumes "node_at (fs w) app_path = Some (File content)"
    and "out (replies w (length (sent w))) = Resp r"
    and "\<not> http_error_status (status_code r)"
  shows "json_body r = Some j \<Longrightarrow> \<not> is_dict j \<Longrightarrow>
           fst (upload_app s base_url app_path w) = Inl AttributeError"
    and "json_body r = None \<Longrightarrow> fst (upload_app s base_url app_path w) = Inl RequestException"
  using assms
  by (auto simp: upload_app_def session_post_reply raise_for_status_def response_json_def
      is_dict_def split: json.splits)

subsection \<open>The fallback to form encoding\<close>

text \<open>
  \<^bold>\<open>C7.\<close> The upload metadata holds the three fields and the service answers the first
  request with a response. \<^verbatim>\<open>trigger_scan\<close> sends the JSON request and, exactly when
  the status of that response is 415, one more request with the same fields form
  encoded; \<^verbatim>\<open>request_masvs_report\<close> does the same exactly when the status is 400 or
  415. Each sends nothing else. The result is decided by the last response received: a
  status from 400 to 599 raises \<^verbatim>\<open>MobSFError\<close> with the status and the body, any other
  status returns what \<^verbatim>\<open>response.json()\<close> gives. (The second response is only needed
  when a second request is sent.)
\<close>

theorem encoding_fallback:
  assumes "scan_payload_of upload_meta = Inr sp"
    and "out (replies w (length (sent w))) = Resp r1"
    and "status_code r1 = 400 \<or> status_code r1 = 415
           \<longrightarrow> out (replies w (Suc (length (sent w)))) = Resp r2"
  shows "sent (snd (trigger_scan s base_url upload_meta w)) =
           sent w @ post_request s (base_url @ ''/api/v1/scan'') (JsonBody sp) 120
             # (if status_code r1 = 415
                then [post_request s (base_url @ ''/api/v1/scan'') (FormBody sp) 120] else [])
       \<and> fst (trigger_scan s base_url upload_meta w) =
           checked_json (if status_code r1 = 415 then r2 else r1) ''Scan''
       \<and> sent (snd (request_masvs_report s base_url upload_meta lvl w)) =
           sent w @ post_request s (base_url @ ''/api/v1/masvs'')
                      (JsonBody (sp @ [(''masvs_level'', JStr lvl)])) 60
             # (if status_code r1 = 400 \<or> status_code r1 = 415
                then [post_request s (base_url @ ''/api/v1/masvs'')
                        (FormBody (sp @ [(''masvs_level'', JStr lvl)])) 60] else [])
       \<and> fst (request_masvs_report s base_url upload_meta lvl w) =
           checked_json (if status_code r1 = 400 \<or> status_code r1 = 415 then r2 else r1)
             ''MASVS report''
       \<and> (\<forall>r c. checked_json r c =
             (if http_error_status (status_code r)
              then Inl (MobSFError (StatusFailed c (status_code r) (body_text r)))
              else response_json r))"
  using assms
  by (auto simp: trigger_scan_def request_masvs_report_def session_post_reply Let_def
      checked_json_cases)

text \<open>The theorem in a world whose service answers 415 first and in one whose service
  answers 400 first: the scan trigger retries on the first only, the compliance fetch on
  both.\<close>

theorem encoding_fallback_witness:
  "fst (trigger_scan ex_session ex_url ex_meta (ex_retry_world 415)) = Inr (JDict [(''ok'', JBool True)])
   \<and> length (sent (snd (trigger_scan ex_session ex_url ex_meta (ex_retry_world 415)))) = 2
   \<and> fst (trigger_scan ex_session ex_url ex_meta (ex_retry_world 400)) =
       Inl (MobSFError (StatusFailed ''Scan'' 400 ''rejected''))
   \<and> length (sent (snd (trigger_scan ex_session ex_url ex_meta (ex_retry_world 400)))) = 1
   \<and> fst (request_masvs_report ex_session ex_url ex_meta ''L2'' (ex_retry_world 400)) =
       Inr (JDict [(''ok'', JBool True)])
   \<and> length (sent (snd (request_masvs_report ex_session ex_url ex_meta ''L2''
                          (ex_retry_world 400)))) = 2"
proof -
  let ?r1 = "\<lambda>n. \<lparr>status_code = n, body_text = ''rejected'', json_body = None\<rparr>"
  let ?r2 = "json_response (JDict [(''ok'', JBool True)])"
  have sp: "scan_payload_of ex_meta =
              Inr [(''scan_type'', JStr ''apk''), (''file_name'', JStr ''app.apk''),
                   (''hash'', JStr ''abc'')]"
    by code_simp
  have sent0: "sent (ex_retry_world n) = []" for n
    by (simp add: ex_retry_world_def ex_world_def)
  have first: "out (replies (ex_retry_world n) (length (sent (ex_retry_world n)))) = Resp (?r1 n)"
    for n by (simp add: sent0) (simp add: ex_retry_world_def)
  have second: "status_code (?r1 n) = 400 \<or> status_code (?r1 n) = 415 \<longrightarrow>
      out (replies (ex_retry_world n) (Suc (length (sent (ex_retry_world n))))) = Resp ?r2"
    for n by (simp add: sent0) (simp add: ex_retry_world_def ok_reply_def)
  from encoding_fallback [OF sp first [of 415] second [of 415],
         where s = ex_session and base_url = ex_url and lvl = "''L2''"]
       encoding_fallback [OF sp first [of 400] second [of 400],
         where s = ex_session and base_url = ex_url and lvl = "''L2''"]
  show ?thesis
    by (simp add: sent0 http_error_status_def response_json_def json_response_def)
qed

subsection \<open>The readiness probe\<close>

lemma after_probe_eq:
  "after_probe s u w = w\<lparr>clock := probe_start w 1, sent := sent w @ [get_request s u 10]\<rparr>"
  by (simp add: after_probe_def session_get_reply sleep_def probe_reply_def)

lemma after_probe_fields:
  "clock (after_probe s u w) = probe_start w 1"
  "sent (after_probe s u w) = sent w @ [get_request s u 10]"
  "replies (after_probe s u w) = replies w"
  by (simp_all add: after_probe_eq)

lemma probe_reply_after: "probe_reply (after_probe s u w) i = probe_reply w (Suc i)"
  by (simp add: probe_reply_def after_probe_fields)

lemma probe_ready_after: "probe_ready (after_probe s u w) i = probe_ready w (Suc i)"
  by (simp add: probe_ready_def probe_reply_after)

lemma probe_start_after: "probe_start (after_probe s u w) i = probe_start w (Suc i)"
  by (induction i) (simp_all add: probe_reply_after after_probe_fields)

lemma probe_start_mono: "probe_start w i \<le> probe_start w (i + k)"
  by (induction k) (simp_all add: order_trans)

text \<open>One round of the loop: a probe that is not ready is followed by a sleep and the
  next round; a probe that is ready ends the loop at once.\<close>

lemma wait_loop_step:
  assumes "clock w - start < 1000 * t" and "\<not> probe_ready w 0"
  shows "wait_loop s u t start w = wait_loop s u t start (after_probe s u w)"
  using assms
  by (subst wait_loop.simps)
     (auto simp: after_probe_def probe_ready_def probe_reply_def session_get_reply
        split: outcome.splits)

lemma wait_loop_ready:
  assumes "clock w - start < 1000 * t" and "probe_ready w 0"
  shows "wait_loop s u t start w =
           (Inr (), w\<lparr>clock := clock w + int (lat (probe_reply w 0)),
                      sent := sent w @ [get_request s u 10]\<rparr>)"
  using assms
  by (subst wait_loop.simps)
     (auto simp: probe_ready_def probe_reply_def session_get_reply split: outcome.splits)

lemma wait_loop_success:
  assumes "\<forall>i<n. \<not> probe_ready w i" and "probe_ready w n"
    and "probe_start w n - start < 1000 * t"
  shows "wait_loop s u t start w =
           (Inr (), w\<lparr>clock := probe_start w n + int (lat (probe_reply w n)),
                      sent := sent w @ replicate (Suc n) (get_request s u 10)\<rparr>)"
  using assms
proof (induction n arbitrary: w)
  case 0
  then show ?case by (simp add: wait_loop_ready)
next
  case (Suc n)
  have "probe_start w 0 \<le> probe_start w (0 + Suc n)" by (rule probe_start_mono)
  with Suc.prems(3) have budget: "clock w - start < 1000 * t" by simp
  from Suc.prems(1) have nr: "\<not> probe_ready w 0" by simp
  have ih: "wait_loop s u t start (after_probe s u w) =
        (Inr (), (after_probe s u w)
           \<lparr>clock := probe_start (after_probe s u w) n + int (lat (probe_reply (after_probe s u w) n)),
            sent := sent (after_probe s u w) @ replicate (Suc n) (get_request s u 10)\<rparr>)"
    using Suc.prems by (intro Suc.IH) (auto simp: probe_ready_after probe_start_after)
  show ?case
    unfolding wait_loop_step [OF budget nr] ih probe_start_after probe_reply_after
    by (simp add: after_probe_eq replicate_append_same)
qed

lemma wait_loop_timeout:
  assumes "\<forall>i. probe_start w i - start < 1000 * t \<longrightarrow> \<not> probe_ready w i"
  shows "fst (wait_loop s u t start w) = Inl (MobSFError (ServerNotReady u t))"
  using assms
proof (induction s u t start w rule: wait_loop.induct)
  case (1 s u t start w)
  show ?case
  proof (cases "clock w - start < 1000 * t")
    case True
    with "1.prems" have nr: "\<not> probe_ready w 0" by (metis probe_start.simps(1))
    define y where "y = snd (session_get s u 10 w)"
    have sg: "(out (probe_reply w 0), y) = session_get s u 10 w"
      by (simp add: y_def session_get_reply probe_reply_def)
    have ap: "after_probe s u w = sleep 3 y"
      by (simp add: after_probe_def y_def)
    have next_ok: "\<forall>i. probe_start (sleep 3 y) i - start < 1000 * t
                     \<longrightarrow> \<not> probe_ready (sleep 3 y) i"
      using "1.prems" unfolding ap [symmetric]
      by (simp add: probe_start_after probe_ready_after)
    have "fst (wait_loop s u t start (sleep 3 y)) = Inl (MobSFError (ServerNotReady u t))"
    proof (cases "out (probe_reply w 0)")
      case Raised
      show ?thesis by (rule "1.IH"(1) [OF True sg Raised next_ok])
    next
      case (Resp r)
      with nr have ne: "status_code r \<noteq> 200" by (simp add: probe_ready_def)
      show ?thesis by (rule "1.IH"(2) [OF True sg Resp ne next_ok])
    qed
    then show ?thesis by (simp add: wait_loop_step [OF True nr] ap)
  next
    case False
    then show ?thesis by (subst wait_loop.simps) simp
  qed
qed

text \<open>
  \<^bold>\<open>C9.\<close> For every sequence of replies to the probes: a probe that raises a
  \<^verbatim>\<open>RequestException\<close> is not ready, like one that gets a status other than 200, and
  is followed by a sleep of three seconds and the next probe. When the probe number
  \<^term>\<open>n\<close> is the first one that gets the status 200, and it starts before the timeout
  has run out, \<^verbatim>\<open>wait_for_server\<close> returns with exactly \<^term>\<open>n + 1\<close> requests sent, at
  the moment that response arrives (no sleep follows). When no probe that starts before
  the timeout has run out gets the status 200, \<^verbatim>\<open>wait_for_server\<close> raises
  \<^verbatim>\<open>MobSFError\<close>. The timeout is 120 seconds when the caller gives none.
\<close>

theorem readiness_probe:
  "((\<forall>i<n. \<not> probe_ready w i) \<and> probe_ready w n
       \<and> probe_start w n - clock w < 1000 * wait_timeout t
     \<longrightarrow> wait_for_server s u t w =
           (Inr (), w\<lparr>clock := probe_start w n + int (lat (probe_reply w n)),
                      sent := sent w @ replicate (Suc n) (get_request s u 10)\<rparr>))
   \<and> ((\<forall>i. probe_start w i - clock w < 1000 * wait_timeout t \<longrightarrow> \<not> probe_ready w i)
     \<longrightarrow> fst (wait_for_server s u t w) = Inl (MobSFError (ServerNotReady u (wait_timeout t))))
   \<and> (\<forall>i. out (probe_reply w i) = Raised \<longrightarrow> \<not> probe_ready w i)
   \<and> wait_timeout None = 120"
proof (intro conjI impI allI)
  assume "(\<forall>i<n. \<not> probe_ready w i) \<and> probe_ready w n
            \<and> probe_start w n - clock w < 1000 * wait_timeout t"
  then show "wait_for_server s u t w =
           (Inr (), w\<lparr>clock := probe_start w n + int (lat (probe_reply w n)),
                      sent := sent w @ replicate (Suc n) (get_request s u 10)\<rparr>)"
    unfolding wait_for_server_def by (intro wait_loop_success) simp_all
next
  assume "\<forall>i. probe_start w i - clock w < 1000 * wait_timeout t \<longrightarrow> \<not> probe_ready w i"
  then show "fst (wait_for_server s u t w) = Inl (MobSFError (ServerNotReady u (wait_timeout t)))"
    unfolding wait_for_server_def by (rule wait_loop_timeout)
next
  fix i
  assume "out (probe_reply w i) = Raised"
  then show "\<not> probe_ready w i" by (simp add: probe_ready_def)
next
  show "wait_timeout None = 120" by (simp add: wait_timeout_def)
qed

text \<open>The theorem in the world whose service refuses the first probe and answers the
  second, with the default timeout, and in the world whose service is down, with a
  timeout of 20 seconds.\<close>

theorem readiness_probe_witness:
  "wait_for_server ex_session ex_url None (ex_world c1_response) =
     (Inr (), ex_world c1_response
                \<lparr>clock := 3150, sent := [get_request ex_session ex_url 10,
                                          get_request ex_session ex_url 10]\<rparr>)
   \<and> fst (wait_for_server ex_session ex_url (Some 20) ex_down_world) =
       Inl (MobSFError (ServerNotReady ex_url 20))"
proof -
  let ?w = "ex_world c1_response"
  have sent0: "sent ?w = []" and clock0: "clock ?w = 0"
    by (simp_all add: ex_world_def)
  have r0: "probe_reply ?w 0 = \<lparr>lat = 50, out = Raised\<rparr>"
    by (simp add: probe_reply_def sent0) (simp add: ex_world_def ex_service_def)
  have r1: "probe_reply ?w 1 = \<lparr>lat = 100, out = Resp \<lparr>status_code = 200, body_text = ''MobSF'',
                                                       json_body = None\<rparr>\<rparr>"
    by (simp add: probe_reply_def sent0) (simp add: ex_world_def ex_service_def)
  have a: "\<forall>i<1. \<not> probe_ready ?w i"
    by (simp add: probe_ready_def r0)
  have b: "probe_ready ?w 1"
    unfolding probe_ready_def r1 by simp
  have s1: "probe_start ?w 1 = 3050"
    unfolding One_nat_def probe_start.simps r0 clock0 by simp
  have c: "probe_start ?w 1 - clock ?w < 1000 * wait_timeout None"
    unfolding s1 clock0 wait_timeout_def by simp
  have down: "\<forall>i. probe_start ex_down_world i - clock ex_down_world < 1000 * wait_timeout (Some 20)
                \<longrightarrow> \<not> probe_ready ex_down_world i"
    by (simp add: probe_ready_def probe_reply_def ex_down_world_def)
  from readiness_probe [of 1 ?w None ex_session ex_url] a b c
  have one: "wait_for_server ex_session ex_url None ?w =
      (Inr (), ?w\<lparr>clock := probe_start ?w 1 + int (lat (probe_reply ?w 1)),
                  sent := sent ?w @ replicate (Suc 1) (get_request ex_session ex_url 10)\<rparr>)"
    by blast
  from readiness_probe [of n ex_down_world "Some 20" ex_session ex_url for n] down
  have two: "fst (wait_for_server ex_session ex_url (Some 20) ex_down_world) =
      Inl (MobSFError (ServerNotReady ex_url (wait_timeout (Some 20))))"
    by blast
  show ?thesis
    unfolding one two s1 r1 sent0 wait_timeout_def by (simp add: numeral_2_eq_2)
qed

section \<open>Properties of the run\<close>

lemma bind_Inr: "m w = (Inr a, w') \<Longrightarrow> bind m f w = f a w'"
  by (simp add: bind_def)

lemma bind_Inl: "m w = (Inl x, w') \<Longrightarrow> bind m f w = (Inl x, w')"
  by (simp add: bind_def)

lemma bind_effect: "bind (effect g) f w = f () (g w)"
  by (simp add: bind_def effect_def)

lemma bind_lift_Inr: "bind (lift (Inr a)) f w = f a w"
  by (simp add: bind_def lift_def)

lemma bind_lift_Inl: "bind (lift (Inl x)) f w = (Inl x, w)"
  by (simp add: bind_def lift_def)

text \<open>Nothing after the report is saved touches the file system.\<close>

lemma report_result_fs: "fs (snd (report_result fl r w)) = fs w"
  by (simp add: report_result_def bind_def effect_def lift_def print_def
      split: sum.splits prod.splits)

lemma classify_step_fs:
  "fs (snd (bind (lift (parse_masvs raw lvl)) (report_result fl) w)) = fs w"
  by (cases "parse_masvs raw lvl") (simp_all add: bind_lift_Inl bind_lift_Inr report_result_fs)

lemma classify_step_error:
  "parse_masvs raw lvl = Inl x \<Longrightarrow>
   fst (bind (lift (parse_masvs raw lvl)) (report_result fl) w) = Inl x"
  by (simp add: bind_lift_Inl)

text \<open>\<^verbatim>\<open>mkdir(parents=True, exist_ok=True)\<close> succeeds when no path from the root to the
  directory is a regular file; it leaves the directory in place and changes nothing at
  longer paths.\<close>

lemma mkdir_parents_ok:
  assumes "\<forall>k \<le> length d. \<not> is_file (node_at f (take k d))"
  shows "\<exists>f'. mkdir_parents d f = Inr f' \<and> node_at f' d = Some Dir
              \<and> (\<forall>q. length d < length q \<longrightarrow> f' q = f q)"
  using assms
proof (induction d rule: rev_induct)
  case Nil
  then show ?case by (subst mkdir_parents.simps) (simp add: node_at_def)
next
  case (snoc x ds)
  have nf: "\<not> is_file (node_at f (ds @ [x]))"
    using snoc.prems by (metis order_refl take_all)
  show ?case
  proof (cases "node_at f (ds @ [x])")
    case None
    have "\<forall>k \<le> length ds. \<not> is_file (node_at f (take k ds))"
    proof (intro allI impI)
      fix k assume "k \<le> length ds"
      then have "take k (ds @ [x]) = take k ds" by simp
      moreover have "k \<le> length (ds @ [x])" using \<open>k \<le> length ds\<close> by simp
      ultimately show "\<not> is_file (node_at f (take k ds))" using snoc.prems by metis
    qed
    from snoc.IH [OF this] obtain f' where f': "mkdir_parents ds f = Inr f'"
      "node_at f' ds = Some Dir" "\<forall>q. length ds < length q \<longrightarrow> f' q = f q"
      by blast
    have "mkdir_parents (ds @ [x]) f = Inr (f'(ds @ [x] \<mapsto> Dir))"
      using None f'(1) by (subst mkdir_parents.simps) simp
    then show ?thesis using f'(3) by (simp add: node_at_def)
  next
    case (Some nd)
    with nf have "nd = Dir" by (cases nd) (simp_all add: is_file_def)
    with Some show ?thesis by (subst mkdir_parents.simps) simp
  qed
qed

text \<open>When every path on the way that exists has a parent that exists, all paths from
  the root to the directory are directories afterwards.\<close>

lemma chain_exists:
  assumes wf: "\<forall>k < length d. node_at f (take (Suc k) d) \<noteq> None \<longrightarrow> node_at f (take k d) \<noteq> None"
    and top: "node_at f d \<noteq> None"
  shows "j \<le> length d \<Longrightarrow> node_at f (take (length d - j) d) \<noteq> None"
proof (induction j)
  case 0
  then show ?case using top by simp
next
  case (Suc j)
  then have k: "length d - Suc j < length d" and "j \<le> length d" by simp_all
  from Suc have "node_at f (take (length d - j) d) \<noteq> None" by simp
  moreover have "Suc (length d - Suc j) = length d - j" using Suc.prems by simp
  ultimately show ?case using wf k by metis
qed

lemma mkdir_parents_chain:
  assumes "\<forall>k \<le> length d. \<not> is_file (node_at f (take k d))"
    and "\<forall>k < length d. node_at f (take (Suc k) d) \<noteq> None \<longrightarrow> node_at f (take k d) \<noteq> None"
    and "mkdir_parents d f = Inr f'"
  shows "\<forall>k \<le> length d. node_at f' (take k d) = Some Dir"
  using assms
proof (induction d arbitrary: f' rule: rev_induct)
  case Nil
  then show ?case by (simp add: node_at_def)
next
  case (snoc x ds)
  let ?d = "ds @ [x]"
  have nf: "\<not> is_file (node_at f ?d)"
    using snoc.prems(1) by (metis order_refl take_all)
  show ?case
  proof (cases "node_at f ?d")
    case None
    have a: "\<forall>k \<le> length ds. \<not> is_file (node_at f (take k ds))"
    proof (intro allI impI)
      fix k assume "k \<le> length ds"
      then have "take k ?d = take k ds" "k \<le> length ?d" by simp_all
      then show "\<not> is_file (node_at f (take k ds))" using snoc.prems(1) by metis
    qed
    have b: "\<forall>k < length ds. node_at f (take (Suc k) ds) \<noteq> None \<longrightarrow> node_at f (take k ds) \<noteq> None"
    proof (intro allI impI)
      fix k assume k: "k < length ds" and e: "node_at f (take (Suc k) ds) \<noteq> None"
      from k have "take (Suc k) ?d = take (Suc k) ds" "take k ?d = take k ds" "k < length ?d"
        by simp_all
      with e show "node_at f (take k ds) \<noteq> None" using snoc.prems(2) by metis
    qed
    from mkdir_parents_ok [OF a] obtain f'' where f'': "mkdir_parents ds f = Inr f''" by blast
    have f': "f' = f''(?d \<mapsto> Dir)"
      using snoc.prems(3) None f'' by (subst (asm) mkdir_parents.simps) simp
    have ih: "\<forall>k \<le> length ds. node_at f'' (take k ds) = Some Dir"
      by (rule snoc.IH [OF a b f''])
    show ?thesis
    proof (intro allI impI)
      fix k assume "k \<le> length ?d"
      then consider "k = length ?d" | "k \<le> length ds" by fastforce
      then show "node_at f' (take k ?d) = Some Dir"
      proof cases
        case 1
        then show ?thesis by (simp add: f' node_at_def)
      next
        case 2
        then have t: "take k ?d = take k ds" by simp
        have "take k ds \<noteq> ?d"
          using 2 by (metis length_take length_append_singleton min.absorb2 n_not_Suc_n
              not_less_eq_eq le_refl)
        then have "node_at f' (take k ds) = node_at f'' (take k ds)"
          by (simp add: f' node_at_def)
        with ih 2 t show ?thesis by simp
      qed
    qed
  next
    case (Some nd)
    with nf have dir: "nd = Dir" by (cases nd) (simp_all add: is_file_def)
    with Some snoc.prems(3) have same: "f' = f" by (subst (asm) mkdir_parents.simps) simp
    have top: "node_at f ?d \<noteq> None" using Some by simp
    show ?thesis
    proof (intro allI impI)
      fix k assume k: "k \<le> length ?d"
      have "node_at f (take (length ?d - (length ?d - k)) ?d) \<noteq> None"
        by (rule chain_exists [OF snoc.prems(2) top]) simp
      with k have "node_at f (take k ?d) \<noteq> None" by simp
      moreover have "\<not> is_file (node_at f (take k ?d))" using snoc.prems(1) k by blast
      ultimately show "node_at f' (take k ?d) = Some Dir"
        unfolding same by (cases "node_at f (take k ?d)") (auto simp: is_file_def split: node.splits)
    qed
  qed
qed

lemma ancestors_butlast:
  assumes "p \<noteq> []" and "k \<le> length (butlast p)"
  shows "take k (butlast p) \<in> set (ancestors p)"
proof -
  from assms have "k < length p" by (cases p rule: rev_cases) simp_all
  then have "take k (butlast p) = take k p" by (simp add: take_butlast)
  with \<open>k < length p\<close> show ?thesis by (auto simp: ancestors_def)
qed

lemma ancestors_chain:
  assumes "p \<noteq> []"
    and "\<forall>q \<in> set (ancestors p). node_at f q \<noteq> None \<longrightarrow> node_at f (butlast q) \<noteq> None"
  shows "\<forall>k < length (butlast p).
           node_at f (take (Suc k) (butlast p)) \<noteq> None \<longrightarrow> node_at f (take k (butlast p)) \<noteq> None"
proof (intro allI impI)
  fix k assume k: "k < length (butlast p)"
    and e: "node_at f (take (Suc k) (butlast p)) \<noteq> None"
  from k have sk: "Suc k < length p" by simp
  then have t: "take (Suc k) (butlast p) = take (Suc k) p" "take k (butlast p) = take k p"
    by (simp_all add: take_butlast)
  have "take (Suc k) p \<in> set (ancestors p)" using sk by (auto simp: ancestors_def)
  moreover have "butlast (take (Suc k) p) = take k p" using sk by (simp add: butlast_take)
  ultimately show "node_at f (take k (butlast p)) \<noteq> None" using assms(2) e t by metis
qed

lemma save_raw_report_ok:
  assumes "\<forall>q \<in> set (ancestors p). \<not> is_file (node_at (fs w) q)"
    and "node_at (fs w) p \<noteq> Some Dir"
  shows "\<exists>f'. save_raw_report (Some p) raw w =
                 (Inr (), print (RawSaved p) (w\<lparr>fs := f'(p \<mapsto> File (json_dumps_indent2 raw))\<rparr>))
              \<and> node_at f' (butlast p) = Some Dir
              \<and> ((\<forall>q \<in> set (ancestors p). node_at (fs w) q \<noteq> None
                      \<longrightarrow> node_at (fs w) (butlast q) \<noteq> None)
                  \<longrightarrow> (\<forall>q \<in> set (ancestors p). node_at f' q = Some Dir))"
proof -
  from assms(2) have ne: "p \<noteq> []" by (auto simp: node_at_def)
  have nofile: "\<forall>k \<le> length (butlast p). \<not> is_file (node_at (fs w) (take k (butlast p)))"
    using assms(1) ancestors_butlast [OF ne] by blast
  from mkdir_parents_ok [OF this] obtain f' where f': "mkdir_parents (butlast p) (fs w) = Inr f'"
    "node_at f' (butlast p) = Some Dir" "\<forall>q. length (butlast p) < length q \<longrightarrow> f' q = fs w q"
    by blast
  from ne have len: "length (butlast p) < length p" by (cases p rule: rev_cases) simp_all
  with f'(3) have "f' p = fs w p" by blast
  with assms(2) ne have nd: "node_at f' p \<noteq> Some Dir" by (simp add: node_at_def)
  have saved: "save_raw_report (Some p) raw w =
          (Inr (), print (RawSaved p) (w\<lparr>fs := f'(p \<mapsto> File (json_dumps_indent2 raw))\<rparr>))"
    using f'(1,2) nd
    by (simp add: save_raw_report_def bind_def fs_step_def write_text_def effect_def)
  have chain: "\<forall>q \<in> set (ancestors p). node_at f' q = Some Dir"
    if wf: "\<forall>q \<in> set (ancestors p). node_at (fs w) q \<noteq> None
              \<longrightarrow> node_at (fs w) (butlast q) \<noteq> None"
  proof
    fix q assume "q \<in> set (ancestors p)"
    then obtain k where k: "k < length p" and q: "q = take k p"
      by (auto simp: ancestors_def)
    from k len have kb: "k \<le> length (butlast p)" by simp
    from k have "take k (butlast p) = take k p" by (simp add: take_butlast)
    with mkdir_parents_chain [OF nofile ancestors_chain [OF ne wf] f'(1)] kb q
    show "node_at f' q = Some Dir" by metis
  qed
  from saved f'(2) chain show ?thesis by blast
qed

text \<open>
  \<^bold>\<open>C8\<close>, with the content of the file made precise. The steps up to the compliance
  fetch succeed and return the decoded payload \<^term>\<open>masvs_raw\<close>; no ancestor of the
  output path is a regular file and the output path is no directory. Then, whatever the
  classification does afterwards, the world the run ends in has the parent directory of
  the output path, and at the output path a file whose content is
  \<^verbatim>\<open>json.dumps(masvs_raw, indent=2)\<close>: the decoded payload written anew, not the text
  of the response. In a file system where every ancestor that exists has a parent that
  exists, all ancestors of the output path are directories in the end. The file is
  written before the classification: when \<^verbatim>\<open>parse_masvs\<close> raises, the run raises the
  same exception and the file is there.
\<close>

theorem raw_report_saved:
  assumes "fetch_report ps app_path lvl base_url key w = (Inr masvs_raw, w1)"
    and "\<forall>q \<in> set (ancestors p). \<not> is_file (node_at (fs w1) q)"
    and "node_at (fs w1) p \<noteq> Some Dir"
  shows "node_at (fs (snd (run_masvs_audit ps app_path lvl fl base_url key (Some p) w))) p =
           Some (File (json_dumps_indent2 masvs_raw))
       \<and> node_at (fs (snd (run_masvs_audit ps app_path lvl fl base_url key (Some p) w)))
           (butlast p) = Some Dir
       \<and> ((\<forall>q \<in> set (ancestors p). node_at (fs w1) q \<noteq> None
               \<longrightarrow> node_at (fs w1) (butlast q) \<noteq> None)
           \<longrightarrow> (\<forall>q \<in> set (ancestors p).
                  node_at (fs (snd (run_masvs_audit ps app_path lvl fl base_url key (Some p) w))) q
                    = Some Dir))
       \<and> (\<forall>x. parse_masvs masvs_raw lvl = Inl x \<longrightarrow>
            fst (run_masvs_audit ps app_path lvl fl base_url key (Some p) w) = Inl x)"
proof -
  from assms(3) have ne: "p \<noteq> []" by (auto simp: node_at_def)
  from save_raw_report_ok [OF assms(2,3), of masvs_raw] obtain f' where
    sv: "save_raw_report (Some p) masvs_raw w1 =
           (Inr (), print (RawSaved p) (w1\<lparr>fs := f'(p \<mapsto> File (json_dumps_indent2 masvs_raw))\<rparr>))"
    and pd: "node_at f' (butlast p) = Some Dir"
    and ch: "(\<forall>q \<in> set (ancestors p). node_at (fs w1) q \<noteq> None
                \<longrightarrow> node_at (fs w1) (butlast q) \<noteq> None)
             \<longrightarrow> (\<forall>q \<in> set (ancestors p). node_at f' q = Some Dir)"
    by blast
  let ?w2 = "print (RawSaved p) (w1\<lparr>fs := f'(p \<mapsto> File (json_dumps_indent2 masvs_raw))\<rparr>)"
  have run: "run_masvs_audit ps app_path lvl fl base_url key (Some p) w =
               bind (lift (parse_masvs masvs_raw lvl)) (report_result fl) ?w2"
    by (simp add: run_masvs_audit_def
        bind_Inr [where m = "fetch_report ps app_path lvl base_url key", OF assms(1)]
        bind_Inr [where m = "save_raw_report (Some p) masvs_raw", OF sv])
  have fs2: "fs ?w2 = f'(p \<mapsto> File (json_dumps_indent2 masvs_raw))"
    by (simp add: print_def)
  have bl: "butlast p \<noteq> p" using ne by (cases p rule: rev_cases) simp_all
  have anc: "q \<noteq> p" if "q \<in> set (ancestors p)" for q
    using that by (auto simp: ancestors_def)
  let ?f = "f'(p \<mapsto> File (json_dumps_indent2 masvs_raw))"
  have c1: "node_at ?f p = Some (File (json_dumps_indent2 masvs_raw))"
    using ne by (simp add: node_at_def)
  have c2: "node_at ?f (butlast p) = Some Dir"
    using pd bl by (auto simp: node_at_def split: if_splits)
  have c3: "(\<forall>q \<in> set (ancestors p). node_at (fs w1) q \<noteq> None
               \<longrightarrow> node_at (fs w1) (butlast q) \<noteq> None)
            \<longrightarrow> (\<forall>q \<in> set (ancestors p). node_at ?f q = Some Dir)"
  proof (intro impI ballI)
    fix q
    assume wf: "\<forall>q \<in> set (ancestors p). node_at (fs w1) q \<noteq> None
                  \<longrightarrow> node_at (fs w1) (butlast q) \<noteq> None"
      and q: "q \<in> set (ancestors p)"
    from ch wf q have "node_at f' q = Some Dir" by blast
    with anc [OF q] show "node_at ?f q = Some Dir"
      by (auto simp: node_at_def split: if_splits)
  qed
  have c4: "\<forall>x. parse_masvs masvs_raw lvl = Inl x \<longrightarrow>
              fst (bind (lift (parse_masvs masvs_raw lvl)) (report_result fl) ?w2) = Inl x"
    by (simp add: bind_lift_Inl)
  show ?thesis
    unfolding run classify_step_fs fs2 using c1 c2 c3 c4 by blast
qed

text \<open>The theorem in the world whose service answers the compliance fetch with
  \<^verbatim>\<open>{"controls": 5}\<close>: the directories \<^verbatim>\<open>reports\<close> and \<^verbatim>\<open>masvs\<close> are made, the file
  is written, and the classification raises \<^verbatim>\<open>TypeError\<close>.\<close>

theorem raw_report_saved_witness:
  "node_at (fs (snd (run_masvs_audit ex_process ex_app ''L2'' True ex_url ''key'' (Some ex_out)
                       (ex_world odd_response)))) ex_out =
     Some (File (json_dumps_indent2 (JDict [(''controls'', JInt 5)])))
   \<and> list_all (\<lambda>q. node_at (fs (snd (run_masvs_audit ex_process ex_app ''L2'' True ex_url ''key''
                                        (Some ex_out) (ex_world odd_response)))) q = Some Dir)
        [[], [''work''], [''work'', ''reports''], [''work'', ''reports'', ''masvs'']]
   \<and> node_at (fs (ex_world odd_response)) [''work'', ''reports''] = None
   \<and> fst (run_masvs_audit ex_process ex_app ''L2'' True ex_url ''key'' (Some ex_out)
            (ex_world odd_response)) = Inl TypeError"
proof -
  let ?raw = "JDict [(''controls'', JInt 5)]"
  let ?w1 = "snd (fetch_report ex_process ex_app ''L2'' ex_url ''key'' (ex_world odd_response))"
  have "fst (fetch_report ex_process ex_app ''L2'' ex_url ''key'' (ex_world odd_response)) = Inr ?raw"
    by code_simp
  then have h1: "fetch_report ex_process ex_app ''L2'' ex_url ''key'' (ex_world odd_response) =
                   (Inr ?raw, ?w1)"
    by (simp add: prod_eq_iff)
  have h2: "\<forall>q \<in> set (ancestors ex_out). \<not> is_file (node_at (fs ?w1) q)"
    by code_simp
  have h3: "node_at (fs ?w1) ex_out \<noteq> Some Dir"
    by code_simp
  have h4: "\<forall>q \<in> set (ancestors ex_out). node_at (fs ?w1) q \<noteq> None
              \<longrightarrow> node_at (fs ?w1) (butlast q) \<noteq> None"
    by code_simp
  have p: "parse_masvs ?raw ''L2'' = Inl TypeError"
    by code_simp
  have a: "ancestors ex_out =
             [[], [''work''], [''work'', ''reports''], [''work'', ''reports'', ''masvs'']]"
    by code_simp
  have before: "node_at (fs (ex_world odd_response)) [''work'', ''reports''] = None"
    by (simp add: ex_world_def node_at_def ex_app_def)
  from raw_report_saved [OF h1 h2 h3, of True] h4 p before show ?thesis
    unfolding a by (simp add: list_all_iff)
qed

text \<open>
  \<^bold>\<open>C8\<close> does not hold when the file is compared with the response byte for byte.
  The service answers the compliance fetch with the body
  \<^verbatim>\<open>{"controls": []}\<close> on one line. The run decodes it and writes the three lines
  that \<^verbatim>\<open>json.dumps\<close> makes of the decoded payload with \<^verbatim>\<open>indent=2\<close>; the file is
  not the body of the response.
\<close>

theorem raw_report_not_verbatim:
  "fst (fetch_report ex_process ex_app ''L2'' ex_url ''key'' (ex_world compact_response)) =
     response_json compact_response
   \<and> node_at (fs (snd (run_masvs_audit ex_process ex_app ''L2'' True ex_url ''key'' (Some ex_out)
                         (ex_world compact_response)))) ex_out =
       Some (File (''{'' @ [CHR 0x0A] @ ''  '' @ [CHR 0x22] @ ''controls'' @ [CHR 0x22] @ '': []''
                   @ [CHR 0x0A] @ ''}''))
   \<and> node_at (fs (snd (run_masvs_audit ex_process ex_app ''L2'' True ex_url ''key'' (Some ex_out)
                         (ex_world compact_response)))) ex_out \<noteq>
       Some (File (body_text compact_response))"
  by code_simp

text \<open>The payload of the example, classified at any level.\<close>

lemma c1_parse:
  "parse_masvs c1_payload lvl = Inr \<lparr>level = lvl, passed = JInt 1, failed = [c1_failed_entry]\<rparr>"
proof -
  let ?es = "[JDict [(''control'', JStr ''C1''), (''status'', JStr ''Passed'')], c1_failed_entry]"
  have c: "controls_of [(''controls'', JList ?es)] = JList ?es" by code_simp
  have d: "\<forall>e \<in> set ?es. is_dict e" by code_simp
  have n: "?es \<noteq> [] \<or> \<not> py_truthy (aggregate_of [(''controls'', JList ?es)])" by simp
  have p: "filter entry_passes ?es = [JDict [(''control'', JStr ''C1''), (''status'', JStr ''Passed'')]]"
    by code_simp
  have f: "filter (\<lambda>e. \<not> entry_passes e) ?es = [c1_failed_entry]" by code_simp
  show ?thesis
    unfolding c1_payload_def parse_masvs_list [OF c d n] p f by simp
qed

text \<open>
  \<^bold>\<open>C1.\<close> For the payload of the example, \<^verbatim>\<open>parse_masvs\<close> returns \<^verbatim>\<open>passed = 1\<close>
  and the list \<^verbatim>\<open>failed\<close> with the entry of the control C2 alone, and the result is not
  compliant. In every run that fetches this payload (and saves it, when an output path
  is given) with \<^verbatim>\<open>fail_on_violation\<close> true, \<^verbatim>\<open>run_masvs_audit\<close> raises \<^verbatim>\<open>MobSFError\<close>
  for the policy violation and \<^verbatim>\<open>main\<close> returns the exit code 1. The command line value
  \<^verbatim>\<open>true\<close> of \<^verbatim>\<open>--fail-on-violation\<close> is converted to true.
\<close>

theorem example_payload_fails_run:
  assumes "fetch_report ps app_path lvl base_url key w = (Inr c1_payload, w1)"
    and "save_raw_report outp c1_payload w1 = (Inr (), w2)"
  shows "parse_masvs c1_payload lvl =
           Inr \<lparr>level = lvl, passed = JInt 1, failed = [c1_failed_entry]\<rparr>
       \<and> \<not> is_compliant \<lparr>level = lvl, passed = JInt 1, failed = [c1_failed_entry]\<rparr>
       \<and> fst (run_masvs_audit ps app_path lvl True base_url key outp w) =
           Inl (MobSFError PolicyViolation)
       \<and> fst (main ps \<lparr>app = app_path, masvs_level = lvl, fail_on_violation = True,
                        mobsf_url = base_url, api_key = key, output_arg = outp\<rparr> w) = Inr 1
       \<and> fail_on_violation_type ''true''"
proof -
  have t: "render_failures [c1_failed_entry] =
             Inr (''- C2'' @ [CHR 0x0A] @ ''  Description: d'' @ [CHR 0x0A] @ ''  Guidance: r'')"
    by code_simp
  have run: "run_masvs_audit ps app_path lvl True base_url key outp w =
               report_result True \<lparr>level = lvl, passed = JInt 1, failed = [c1_failed_entry]\<rparr> w2"
    by (simp add: run_masvs_audit_def
        bind_Inr [where m = "fetch_report ps app_path lvl base_url key", OF assms(1)]
        bind_Inr [where m = "save_raw_report outp c1_payload", OF assms(2)]
        c1_parse bind_lift_Inr)
  have res: "fst (report_result True \<lparr>level = lvl, passed = JInt 1, failed = [c1_failed_entry]\<rparr> w2)
               = Inl (MobSFError PolicyViolation)"
    by (simp add: report_result_def bind_effect t bind_lift_Inr bind_lift_Inl lift_def)
  have flag: "fail_on_violation_type ''true''" by code_simp
  have m: "fst (main ps \<lparr>app = app_path, masvs_level = lvl, fail_on_violation = True,
                        mobsf_url = base_url, api_key = key, output_arg = outp\<rparr> w) = Inr 1"
  proof -
    from res obtain w3 where
      "report_result True \<lparr>level = lvl, passed = JInt 1, failed = [c1_failed_entry]\<rparr> w2
         = (Inl (MobSFError PolicyViolation), w3)"
      by (metis prod.collapse)
    then show ?thesis
      by (simp add: main_def run)
  qed
  show ?thesis
    using res m flag by (simp add: c1_parse run is_compliant_def)
qed

text \<open>The theorem in the world whose service returns the upload metadata of the
  example and then the payload of the example.\<close>

theorem example_payload_fails_run_witness:
  "fst (run_masvs_audit ex_process ex_app ''L2'' True ex_url ''key'' None (ex_world c1_response)) =
     Inl (MobSFError PolicyViolation)
   \<and> fst (main ex_process \<lparr>app = ex_app, masvs_level = ''L2'', fail_on_violation = True,
                            mobsf_url = ex_url, api_key = ''key'', output_arg = None\<rparr>
            (ex_world c1_response)) = Inr 1"
proof -
  let ?w1 = "snd (fetch_report ex_process ex_app ''L2'' ex_url ''key'' (ex_world c1_response))"
  have "fst (fetch_report ex_process ex_app ''L2'' ex_url ''key'' (ex_world c1_response)) =
          Inr c1_payload"
    by code_simp
  then have h1: "fetch_report ex_process ex_app ''L2'' ex_url ''key'' (ex_world c1_response) =
                   (Inr c1_payload, ?w1)"
    by (simp add: prod_eq_iff)
  have h2: "save_raw_report None c1_payload ?w1 = (Inr (), ?w1)"
    by (simp add: save_raw_report_def lift_def)
  from example_payload_fails_run [OF h1 h2] show ?thesis by simp
qed

end
